theory Spec2Isabelle
  imports Complex_Main
begin

section \<open>Column values\<close>

text \<open>
  A pandas column of dtype float64 holds finite numbers, the two infinities and NaN.
  Finite numbers are modelled as exact reals.  Three things that float64 does are
  therefore not modelled: rounding; overflow to an infinity and underflow to zero (the
  sum or difference of two finite numbers is always finite here, and a quotient of
  non-zero numbers is never zero); and the sign of zero (a division of a positive number
  by zero gives \<open>PInf\<close> here, where the scripts may have a negative zero and minus
  infinity).  In both scripts a quotient by zero only ever feeds
  \<open>100 - 100 / (1 + rs)\<close>, whose value is the same for either sign of the zero; no
  statement below is about the sign of \<open>rs\<close>.  The statements that promise an exact value,
  or that a value is defined, are made for closes on which float64 is exact (see
  \<open>on_grid\<close> below).
\<close>

datatype fval = NaN | PInf | NInf | Fin real

type_synonym series = "fval list"

fun fneg :: "fval \<Rightarrow> fval" where
  "fneg NaN = NaN"
| "fneg PInf = NInf"
| "fneg NInf = PInf"
| "fneg (Fin x) = Fin (- x)"

fun fadd :: "fval \<Rightarrow> fval \<Rightarrow> fval" where
  "fadd NaN _ = NaN"
| "fadd _ NaN = NaN"
| "fadd PInf NInf = NaN"
| "fadd NInf PInf = NaN"
| "fadd PInf _ = PInf"
| "fadd _ PInf = PInf"
| "fadd NInf _ = NInf"
| "fadd _ NInf = NInf"
| "fadd (Fin x) (Fin y) = Fin (x + y)"

definition fsub :: "fval \<Rightarrow> fval \<Rightarrow> fval" where
  "fsub a b = fadd a (fneg b)"

fun fmul :: "fval \<Rightarrow> fval \<Rightarrow> fval" where
  "fmul NaN _ = NaN"
| "fmul _ NaN = NaN"
| "fmul (Fin x) (Fin y) = Fin (x * y)"
| "fmul (Fin x) PInf = (if x = 0 then NaN else if 0 < x then PInf else NInf)"
| "fmul (Fin x) NInf = (if x = 0 then NaN else if 0 < x then NInf else PInf)"
| "fmul PInf (Fin y) = (if y = 0 then NaN else if 0 < y then PInf else NInf)"
| "fmul NInf (Fin y) = (if y = 0 then NaN else if 0 < y then NInf else PInf)"
| "fmul PInf PInf = PInf"
| "fmul NInf NInf = PInf"
| "fmul PInf NInf = NInf"
| "fmul NInf PInf = NInf"

text \<open>Array division (numpy): a division by zero gives an infinity or NaN, never an error.\<close>

fun fdiv :: "fval \<Rightarrow> fval \<Rightarrow> fval" where
  "fdiv NaN _ = NaN"
| "fdiv _ NaN = NaN"
| "fdiv (Fin x) (Fin y) =
     (if y = 0 then (if x = 0 then NaN else if 0 < x then PInf else NInf)
      else Fin (x / y))"
| "fdiv (Fin x) PInf = Fin 0"
| "fdiv (Fin x) NInf = Fin 0"
| "fdiv PInf (Fin y) = (if 0 \<le> y then PInf else NInf)"
| "fdiv NInf (Fin y) = (if 0 \<le> y then NInf else PInf)"
| "fdiv PInf PInf = NaN"
| "fdiv PInf NInf = NaN"
| "fdiv NInf PInf = NaN"
| "fdiv NInf NInf = NaN"

text \<open>The comparisons \<open>a > b\<close> and \<open>a < b\<close> of floats: false whenever an operand is NaN.\<close>

fun fgt :: "fval \<Rightarrow> fval \<Rightarrow> bool" where
  "fgt NaN _ = False"
| "fgt _ NaN = False"
| "fgt PInf b = (b \<noteq> PInf)"
| "fgt NInf _ = False"
| "fgt (Fin x) PInf = False"
| "fgt (Fin x) NInf = True"
| "fgt (Fin x) (Fin y) = (y < x)"

definition flt :: "fval \<Rightarrow> fval \<Rightarrow> bool" where
  "flt a b = fgt b a"

definition isna :: "fval \<Rightarrow> bool" where
  "isna a = (a = NaN)"

section \<open>The pandas operations the scripts call\<close>

text \<open>\<open>Series.shift(1)\<close> and \<open>Series.diff()\<close>: the first difference is NaN.\<close>

definition shift1 :: "series \<Rightarrow> series" where
  "shift1 xs = take (length xs) (NaN # xs)"

definition diff :: "series \<Rightarrow> series" where
  "diff xs = map2 fsub xs (shift1 xs)"

text \<open>
  \<open>Series.clip(lower=0)\<close> and \<open>Series.clip(upper=0)\<close>: a value beyond the bound is
  replaced by the bound, NaN is kept.
\<close>

definition clip_lower :: "fval \<Rightarrow> series \<Rightarrow> series" where
  "clip_lower lo xs = map (\<lambda>x. if isna x \<or> \<not> flt x lo then x else lo) xs"

definition clip_upper :: "fval \<Rightarrow> series \<Rightarrow> series" where
  "clip_upper hi xs = map (\<lambda>x. if isna x \<or> \<not> fgt x hi then x else hi) xs"

text \<open>
  \<open>Series.where(cond, other)\<close> keeps the value where the condition holds and writes
  \<open>other\<close> everywhere else, also where the value is NaN (a comparison with NaN is false).
\<close>

definition where_gt0 :: "series \<Rightarrow> fval \<Rightarrow> series" where
  "where_gt0 xs other = map (\<lambda>x. if fgt x (Fin 0) then x else other) xs"

definition where_lt0 :: "series \<Rightarrow> fval \<Rightarrow> series" where
  "where_lt0 xs other = map (\<lambda>x. if flt x (Fin 0) then x else other) xs"

definition neg :: "series \<Rightarrow> series" where
  "neg xs = map fneg xs"

text \<open>
  Before a rolling or exponentially weighted aggregation pandas replaces every infinite
  value of the column by NaN (\<open>_prep_values\<close>), so that an infinity counts as a missing
  value.
\<close>

definition prep_values :: "series \<Rightarrow> series" where
  "prep_values xs = map (\<lambda>x. if x = PInf \<or> x = NInf then NaN else x) xs"

text \<open>
  \<open>Series.rolling(w).mean()\<close> with the default \<open>min_periods = w\<close>: position \<open>i\<close> looks at
  the \<open>w\<close> prepared values ending at \<open>i\<close> (fewer at the start of the column), and is the
  mean of those that are not NaN when there are at least \<open>w\<close> of them, NaN otherwise
  (\<open>roll_mean\<close>).
\<close>

definition window :: "nat \<Rightarrow> series \<Rightarrow> nat \<Rightarrow> series" where
  "window w xs i = drop (Suc i - w) (take (Suc i) xs)"

definition fsum :: "series \<Rightarrow> fval" where
  "fsum xs = foldl fadd (Fin 0) xs"

definition window_mean :: "nat \<Rightarrow> series \<Rightarrow> fval" where
  "window_mean min_periods win =
     (let obs = filter (\<lambda>x. \<not> isna x) win; nobs = length obs
      in if min_periods \<le> nobs \<and> 0 < nobs then fdiv (fsum obs) (Fin (real nobs)) else NaN)"

definition roll_mean :: "nat \<Rightarrow> series \<Rightarrow> series" where
  "roll_mean w xs = map (\<lambda>i. window_mean w (window w xs i)) [0..<length xs]"

definition rolling_mean :: "nat \<Rightarrow> series \<Rightarrow> series" where
  "rolling_mean w xs = roll_mean w (prep_values xs)"

text \<open>
  \<open>Series.ewm(span=sp).mean()\<close> with the defaults \<open>adjust=True\<close>, \<open>ignore_na=False\<close>,
  \<open>min_periods=0\<close>.  pandas runs one pass (\<open>ewm\<close>) over the prepared column that carries the current
  weighted mean \<open>weighted\<close>, the total weight \<open>old_wt\<close> of the values behind it and the
  number \<open>nobs\<close> of values seen that are not NaN; \<open>old_wt_factor\<close> is \<open>1 - alpha\<close> with
  \<open>alpha = 2 / (sp + 1)\<close>, and the weight of a new value is 1.
\<close>

fun ewm_loop :: "real \<Rightarrow> fval \<Rightarrow> real \<Rightarrow> nat \<Rightarrow> series \<Rightarrow> series" where
  "ewm_loop old_wt_factor weighted old_wt nobs [] = []"
| "ewm_loop old_wt_factor weighted old_wt nobs (cur # rest) =
     (let is_observation = \<not> isna cur;
          nobs' = (if is_observation then Suc nobs else nobs);
          old_wt1 = (if \<not> isna weighted then old_wt * old_wt_factor else old_wt);
          weighted' =
            (if \<not> isna weighted then
               (if is_observation \<and> weighted \<noteq> cur
                then fdiv (fadd (fmul (Fin old_wt1) weighted) (fmul (Fin 1) cur))
                          (Fin (old_wt1 + 1))
                else weighted)
             else if is_observation then cur else weighted);
          old_wt' = (if \<not> isna weighted \<and> is_observation then old_wt1 + 1 else old_wt1)
      in (if 1 \<le> nobs' then weighted' else NaN)
         # ewm_loop old_wt_factor weighted' old_wt' nobs' rest)"

definition ewm :: "nat \<Rightarrow> series \<Rightarrow> series" where
  "ewm sp xs =
     (case xs of
        [] \<Rightarrow> []
      | x # rest \<Rightarrow>
          (let alpha = 2 / (real sp + 1);
               nobs = (if isna x then 0 else Suc 0)
           in (if 1 \<le> nobs then x else NaN) # ewm_loop (1 - alpha) x 1 nobs rest))"

definition ewm_mean :: "nat \<Rightarrow> series \<Rightarrow> series" where
  "ewm_mean sp xs = ewm sp (prep_values xs)"

text \<open>The two elementwise steps that end the RSI computation.\<close>

definition rs_of :: "series \<Rightarrow> series \<Rightarrow> series" where
  "rs_of avg_gain avg_loss = map2 fdiv avg_gain avg_loss"

definition rsi_of :: "series \<Rightarrow> series" where
  "rsi_of rs = map (\<lambda>r. fsub (Fin 100) (fdiv (Fin 100) (fadd (Fin 1) r))) rs"

section \<open>The data frames\<close>

text \<open>
  The frame that \<open>yf.download\<close> returns: one column per field of a bar, one row per
  bar, oldest first.  All columns have the same number of rows.
\<close>

record frame =
  Open :: series
  High :: series
  Low :: series
  Close :: series
  Volume :: series

text \<open>The same frame after the three assignments \<open>df['SMA_20']\<close>, \<open>df['SMA_50']\<close>, \<open>df['RSI']\<close>.\<close>

record indicator_frame = frame +
  SMA_20 :: series
  SMA_50 :: series
  RSI :: series

text \<open>
  The ways a run can end early.  \<open>EmptyInput\<close> is \<open>st.error(...); st.stop()\<close> after an
  empty download; \<open>IndexError\<close>, \<open>ZeroDivisionError\<close> and \<open>KeyError\<close> are Python's.
  \<open>InvalidParameter\<close> is the second failure of the specification's taxonomy (section 7);
  no line of either script raises it.
\<close>

datatype error = EmptyInput | InvalidParameter | IndexError | ZeroDivisionError | KeyError

definition empty :: "'a frame_scheme \<Rightarrow> bool" where
  "empty df = (length (Close df) = 0)"

section \<open>gold\_dashboard.py\<close>

text \<open>
  The local variables of \<open>get_data\<close>, lines 47 to 53, as functions of the Close column.
  The lookback is the parameter \<open>p\<close>; the script passes the literal 14.
\<close>

definition gd_gain :: "series \<Rightarrow> series" where
  "gd_gain close = clip_lower (Fin 0) (diff close)"

definition gd_loss :: "series \<Rightarrow> series" where
  "gd_loss close = neg (clip_upper (Fin 0) (diff close))"

definition gd_avg_gain :: "nat \<Rightarrow> series \<Rightarrow> series" where
  "gd_avg_gain p close = ewm_mean p (gd_gain close)"

definition gd_avg_loss :: "nat \<Rightarrow> series \<Rightarrow> series" where
  "gd_avg_loss p close = ewm_mean p (gd_loss close)"

definition gd_rsi :: "nat \<Rightarrow> series \<Rightarrow> series" where
  "gd_rsi p close = rsi_of (rs_of (gd_avg_gain p close) (gd_avg_loss p close))"

definition get_data :: "frame \<Rightarrow> error + indicator_frame" where
  "get_data df =
     (if empty df then Inl EmptyInput
      else Inr \<lparr> Open = Open df, High = High df, Low = Low df, Close = Close df,
                 Volume = Volume df,
                 SMA_20 = rolling_mean 20 (Close df),
                 SMA_50 = rolling_mean 50 (Close df),
                 RSI = gd_rsi 14 (Close df) \<rparr>)"

section \<open>gold\_dashboard\_streamlit.py\<close>

text \<open>The module-level variables of lines 77 to 83, as functions of the Close column.\<close>

definition st_gain :: "series \<Rightarrow> series" where
  "st_gain close = (let delta = diff close in where_gt0 delta (Fin 0))"

definition st_loss :: "series \<Rightarrow> series" where
  "st_loss close = (let delta = diff close in neg (where_lt0 delta (Fin 0)))"

definition st_avg_gain :: "nat \<Rightarrow> series \<Rightarrow> series" where
  "st_avg_gain p close = rolling_mean p (st_gain close)"

definition st_avg_loss :: "nat \<Rightarrow> series \<Rightarrow> series" where
  "st_avg_loss p close = rolling_mean p (st_loss close)"

definition st_rsi :: "nat \<Rightarrow> series \<Rightarrow> series" where
  "st_rsi p close = rsi_of (rs_of (st_avg_gain p close) (st_avg_loss p close))"

text \<open>Lines 75 to 83: the three column assignments.\<close>

definition calculate_indicators :: "frame \<Rightarrow> indicator_frame" where
  "calculate_indicators data =
     \<lparr> Open = Open data, High = High data, Low = Low data, Close = Close data,
       Volume = Volume data,
       SMA_20 = rolling_mean 20 (Close data),
       SMA_50 = rolling_mean 50 (Close data),
       RSI = st_rsi 14 (Close data) \<rparr>"

text \<open>
  \<open>Series.iloc[k]\<close> for a negative position \<open>k\<close>: counted from the end, IndexError when
  the column is too short.
\<close>

definition iloc :: "series \<Rightarrow> int \<Rightarrow> error + fval" where
  "iloc xs k =
     (let n = int (length xs); j = (if k < 0 then n + k else k)
      in if 0 \<le> j \<and> j < n then Inr (xs ! nat j) else Inl IndexError)"

text \<open>Python's \<open>/\<close> on two floats raises on a zero divisor, whatever the dividend.\<close>

definition py_truediv :: "fval \<Rightarrow> fval \<Rightarrow> error + fval" where
  "py_truediv a b = (if b = Fin 0 then Inl ZeroDivisionError else Inr (fdiv a b))"

text \<open>Lines 86 to 90: the scalars shown in the metric cards.\<close>

record current_values =
  current_price :: fval
  prev_close :: fval
  price_change :: fval
  percent_change :: fval
  rsi_value :: fval

definition get_current_values :: "indicator_frame \<Rightarrow> error + current_values" where
  "get_current_values data =
     (case iloc (Close data) (- 1) of
        Inl e \<Rightarrow> Inl e
      | Inr cp \<Rightarrow>
          (case (if 1 < length (Close data) then iloc (Close data) (- 2) else Inr cp) of
             Inl e \<Rightarrow> Inl e
           | Inr pc \<Rightarrow>
               (let pchange = fsub cp pc in
                case py_truediv pchange pc of
                  Inl e \<Rightarrow> Inl e
                | Inr q \<Rightarrow>
                    (case iloc (RSI data) (- 1) of
                       Inl e \<Rightarrow> Inl e
                     | Inr r \<Rightarrow>
                         Inr \<lparr> current_price = cp, prev_close = pc, price_change = pchange,
                               percent_change = fmul q (Fin 100), rsi_value = r \<rparr>))))"

text \<open>Lines 68 to 83: stop on an empty download, else compute the indicator columns.\<close>

definition streamlit_indicators :: "frame \<Rightarrow> error + indicator_frame" where
  "streamlit_indicators fetched =
     (if empty fetched then Inl EmptyInput else Inr (calculate_indicators fetched))"

text \<open>
  Lines 68 to 90 of the script.  The result is the frame \<open>data\<close> as it stands after line
  90, and the scalars.
\<close>

definition streamlit_script :: "frame \<Rightarrow> error + indicator_frame \<times> current_values" where
  "streamlit_script fetched =
     (case streamlit_indicators fetched of
        Inl e \<Rightarrow> Inl e
      | Inr data \<Rightarrow>
          (case get_current_values data of
             Inl e \<Rightarrow> Inl e
           | Inr cv \<Rightarrow> Inr (data, cv)))"

section \<open>gold\_dashboard.py, module level\<close>

text \<open>
  Lines 75 to 79 and 103: \<open>data = get_data()\<close>, then the scalars \<open>current_price\<close>,
  \<open>price_change\<close>, \<open>pct_change\<close> and \<open>rsi\<close>, returned here in this order beside the frame
  \<open>data\<close> as it stands after line 103.  This script has no fallback for a one-row frame.
\<close>

definition gold_dashboard_script ::
  "frame \<Rightarrow> error + indicator_frame \<times> (fval \<times> fval \<times> fval \<times> fval)" where
  "gold_dashboard_script df =
     (case get_data df of
        Inl e \<Rightarrow> Inl e
      | Inr data \<Rightarrow>
          (case iloc (Close data) (- 1) of
             Inl e \<Rightarrow> Inl e
           | Inr cp \<Rightarrow>
               (case iloc (Close data) (- 2) of
                  Inl e \<Rightarrow> Inl e
                | Inr c2 \<Rightarrow>
                    (let pchange = fsub cp c2 in
                     case py_truediv pchange cp of
                       Inl e \<Rightarrow> Inl e
                     | Inr q \<Rightarrow>
                         (case iloc (RSI data) (- 1) of
                            Inl e \<Rightarrow> Inl e
                          | Inr r \<Rightarrow> Inr (data, (cp, pchange, fmul q (Fin 100), r)))))))"

section \<open>The failures the specification describes\<close>

text \<open>
  The error conditions in the words of the specification (section 4.1): a Series of
  length 0 fails with EmptyInput, a non-positive fast window, slow window or lookback
  fails with InvalidParameter.  It is compared below with what the scripts do.
\<close>

definition spec_failure :: "int \<Rightarrow> int \<Rightarrow> int \<Rightarrow> nat \<Rightarrow> error option" where
  "spec_failure fast slow p n =
     (if n = 0 then Some EmptyInput
      else if fast \<le> 0 \<or> slow \<le> 0 \<or> p \<le> 0 then Some InvalidParameter
      else None)"

definition failure_of :: "error + 'a \<Rightarrow> error option" where
  "failure_of r = (case r of Inl e \<Rightarrow> Some e | Inr _ \<Rightarrow> None)"

section \<open>Predicates used in the statements\<close>

text \<open>A value that is NaN, plus infinity or a finite number that is not negative.\<close>

fun nonneg :: "fval \<Rightarrow> bool" where
  "nonneg NaN = True"
| "nonneg PInf = True"
| "nonneg NInf = False"
| "nonneg (Fin r) = (0 \<le> r)"

text \<open>An RSI value that is undefined (NaN) or lies between 0 and 100.\<close>

fun rsi_ok :: "fval \<Rightarrow> bool" where
  "rsi_ok NaN = True"
| "rsi_ok (Fin r) = (0 \<le> r \<and> r \<le> 100)"
| "rsi_ok _ = False"

section \<open>Deltas, gains and losses of finite closes\<close>

text \<open>
  For a column of finite closes \<open>cl\<close>: the price delta at a position, and its split into
  gain and loss.  At position 0 there is no previous close; the formula then reads
  \<open>cl ! 0 - cl ! 0\<close>, and the lemmas below say where the scripts have NaN instead.
\<close>

definition delta_at :: "real list \<Rightarrow> nat \<Rightarrow> real" where
  "delta_at cl i = cl ! i - cl ! (i - 1)"

definition gain_at :: "real list \<Rightarrow> nat \<Rightarrow> real" where
  "gain_at cl i = max (delta_at cl i) 0"

definition loss_at :: "real list \<Rightarrow> nat \<Rightarrow> real" where
  "loss_at cl i = max (- delta_at cl i) 0"

text \<open>
  The pass of \<open>ewm_loop\<close> over finite values, on reals: from the weighted mean \<open>m\<close> with
  total weight \<open>W\<close>, each value \<open>y\<close> gives the mean \<open>(W * f * m + y) / (W * f + 1)\<close> with
  total weight \<open>W * f + 1\<close>.  It is used in the proofs only.
\<close>

fun ewm_fin :: "real \<Rightarrow> real \<Rightarrow> real \<Rightarrow> real list \<Rightarrow> real list" where
  "ewm_fin f m W [] = []"
| "ewm_fin f m W (y # ys) =
     ((W * f * m + y) / (W * f + 1)) # ewm_fin f ((W * f * m + y) / (W * f + 1)) (W * f + 1) ys"

text \<open>
  The total weight behind the exponentially weighted mean of \<open>k + 1\<close> values, for the span
  \<open>p\<close>: \<open>1 + (1 - alpha) + ... + (1 - alpha) ^ k\<close> with \<open>alpha = 2 / (p + 1)\<close>.
\<close>

definition ewm_weight :: "nat \<Rightarrow> nat \<Rightarrow> real" where
  "ewm_weight p k = (\<Sum>j\<le>k. (1 - 2 / (real p + 1)) ^ j)"

section \<open>The smoothing rule selector of the specification\<close>

text \<open>
  The configuration choice in the words of the specification (sections 4.1 and 6): a
  selector with the values SIMPLE and EXPONENTIAL, and the smoothing with lookback \<open>p\<close>
  that it selects.  Neither script has such an input; the selector is compared below
  with what each script computes.
\<close>

datatype smoothing_rule = SIMPLE | EXPONENTIAL

definition smooth :: "smoothing_rule \<Rightarrow> nat \<Rightarrow> series \<Rightarrow> series" where
  "smooth rule p xs = (case rule of SIMPLE \<Rightarrow> rolling_mean p xs | EXPONENTIAL \<Rightarrow> ewm_mean p xs)"

section \<open>Closes on which float64 is exact\<close>

text \<open>
  The closes that are multiples of \<open>2 ^ -20\<close> with magnitude at most \<open>2 ^ 20\<close>.  On
  such closes every difference of two closes, and every sum of up to 1024 closes, gains or
  losses, is a float64 number that the scripts compute without rounding; nothing
  overflows, and no mean of such a sum underflows to zero.  There the exact arithmetic of
  this theory and the scripts' float64 arithmetic agree up to the rounding of a quotient.
  Under the exponential rule with span 14 the weight of a bar shrinks by the factor
  \<open>13 / 15\<close> with every later bar: over 4096 bars a single gain or loss of \<open>2 ^ -20\<close> keeps
  the average above \<open>2 ^ -870\<close>, far above the smallest float64 number, so that an average
  is 0 in the scripts exactly when it is 0 here.  The statements below that give an exact
  value, or say that a value is defined, carry these bounds as hypotheses.
\<close>

definition on_grid :: "real \<Rightarrow> bool" where
  "on_grid x = (\<bar>x\<bar> \<le> 2 ^ 20 \<and> of_int \<lfloor>x * 2 ^ 20\<rfloor> = x * 2 ^ 20)"

section \<open>The frame as an object\<close>

text \<open>
  Both scripts assign the indicator columns into the DataFrame object that was fetched.
  To state what this does to the object, a heap maps each reference to the object it
  points to: the five fetched columns, and the three indicator columns, each of them
  present or absent.
\<close>

type_synonym ref = nat

record df_object = frame +
  col_SMA_20 :: "series option"
  col_SMA_50 :: "series option"
  col_RSI :: "series option"

type_synonym heap = "ref \<Rightarrow> df_object"

text \<open>The assignment \<open>df[name] = column\<close>, on the object behind the reference.\<close>

definition set_SMA_20 :: "heap \<Rightarrow> ref \<Rightarrow> series \<Rightarrow> heap" where
  "set_SMA_20 h r c = h(r := (h r)\<lparr>col_SMA_20 := Some c\<rparr>)"

definition set_SMA_50 :: "heap \<Rightarrow> ref \<Rightarrow> series \<Rightarrow> heap" where
  "set_SMA_50 h r c = h(r := (h r)\<lparr>col_SMA_50 := Some c\<rparr>)"

definition set_RSI :: "heap \<Rightarrow> ref \<Rightarrow> series \<Rightarrow> heap" where
  "set_RSI h r c = h(r := (h r)\<lparr>col_RSI := Some c\<rparr>)"

text \<open>
  gold\_dashboard.py, the body of \<open>get_data\<close>, lines 38 to 55, with \<open>df\<close> the reference
  that \<open>yf.download\<close> returned: the three assignments go into that object, and
  \<open>return df\<close> hands the same reference back.  The decorator \<open>st.cache_data\<close> of line 35
  belongs to the streamlit library and is not modelled: it runs this body when it has no
  stored result, and only then are the indicators computed.
\<close>

definition get_data_inplace :: "heap \<Rightarrow> ref \<Rightarrow> error + heap \<times> ref" where
  "get_data_inplace h df =
     (if empty (h df) then Inl EmptyInput
      else
        (let h1 = set_SMA_20 h df (rolling_mean 20 (Close (h df)));
             h2 = set_SMA_50 h1 df (rolling_mean 50 (Close (h1 df)));
             h3 = set_RSI h2 df (gd_rsi 14 (Close (h2 df)))
         in Inr (h3, df)))"

text \<open>
  gold\_dashboard\_streamlit.py, lines 70 to 83, with \<open>data\<close> the reference that
  \<open>get_gold_data\<close> returned.
\<close>

definition streamlit_indicators_inplace :: "heap \<Rightarrow> ref \<Rightarrow> error + heap" where
  "streamlit_indicators_inplace h data =
     (if empty (h data) then Inl EmptyInput
      else
        (let h1 = set_SMA_20 h data (rolling_mean 20 (Close (h data)));
             h2 = set_SMA_50 h1 data (rolling_mean 50 (Close (h1 data)));
             h3 = set_RSI h2 data (st_rsi 14 (Close (h2 data)))
         in Inr h3))"

text \<open>
  Reading: \<open>df[name]\<close> raises KeyError when the column is absent.  The statements after
  the indicator computation read the object through its columns.
\<close>

definition getitem :: "series option \<Rightarrow> error + series" where
  "getitem c = (case c of None \<Rightarrow> Inl KeyError | Some s \<Rightarrow> Inr s)"

definition read_frame :: "df_object \<Rightarrow> error + indicator_frame" where
  "read_frame obj =
     (case getitem (col_SMA_20 obj) of
        Inl e \<Rightarrow> Inl e
      | Inr s20 \<Rightarrow>
          (case getitem (col_SMA_50 obj) of
             Inl e \<Rightarrow> Inl e
           | Inr s50 \<Rightarrow>
               (case getitem (col_RSI obj) of
                  Inl e \<Rightarrow> Inl e
                | Inr r \<Rightarrow>
                    Inr \<lparr> Open = Open obj, High = High obj, Low = Low obj, Close = Close obj,
                          Volume = Volume obj, SMA_20 = s20, SMA_50 = s50, RSI = r \<rparr>)))"

text \<open>The five fetched columns of an object.\<close>

definition fetched_frame :: "df_object \<Rightarrow> frame" where
  "fetched_frame obj =
     \<lparr> Open = Open obj, High = High obj, Low = Low obj, Close = Close obj,
       Volume = Volume obj \<rparr>"

text \<open>
  gold\_dashboard\_streamlit.py, lines 70 to 90, on the heap: the indicator assignments,
  then the scalars, which only read the object.
\<close>

definition streamlit_script_inplace :: "heap \<Rightarrow> ref \<Rightarrow> error + heap \<times> current_values" where
  "streamlit_script_inplace h data =
     (case streamlit_indicators_inplace h data of
        Inl e \<Rightarrow> Inl e
      | Inr h' \<Rightarrow>
          (case read_frame (h' data) of
             Inl e \<Rightarrow> Inl e
           | Inr fr \<Rightarrow>
               (case get_current_values fr of
                  Inl e \<Rightarrow> Inl e
                | Inr cv \<Rightarrow> Inr (h', cv))))"

text \<open>
  gold\_dashboard.py, lines 75 to 79 and 103, on the heap: \<open>data = get_data()\<close>, then the
  scalars, which only read the object.
\<close>

definition gold_dashboard_script_inplace ::
  "heap \<Rightarrow> ref \<Rightarrow> error + heap \<times> ref \<times> (fval \<times> fval \<times> fval \<times> fval)" where
  "gold_dashboard_script_inplace h df =
     (case get_data_inplace h df of
        Inl e \<Rightarrow> Inl e
      | Inr (h', data) \<Rightarrow>
          (case read_frame (h' data) of
             Inl e \<Rightarrow> Inl e
           | Inr fr \<Rightarrow>
               (case iloc (Close fr) (- 1) of
                  Inl e \<Rightarrow> Inl e
                | Inr cp \<Rightarrow>
                    (case iloc (Close fr) (- 2) of
                       Inl e \<Rightarrow> Inl e
                     | Inr c2 \<Rightarrow>
                         (let pchange = fsub cp c2 in
                          case py_truediv pchange cp of
                            Inl e \<Rightarrow> Inl e
                          | Inr q \<Rightarrow>
                              (case iloc (RSI fr) (- 1) of
                                 Inl e \<Rightarrow> Inl e
                               | Inr r \<Rightarrow>
                                   Inr (h', data, (cp, pchange, fmul q (Fin 100), r))))))))"

section \<open>Lengths, and rolling means of finite columns\<close>

lemma length_prep_values [simp]: "length (prep_values xs) = length xs"
  by (simp add: prep_values_def)

lemma prep_values_Nil [simp]: "prep_values [] = []"
  by (simp add: prep_values_def)

lemma prep_values_NaN [simp]: "prep_values (NaN # xs) = NaN # prep_values xs"
  by (simp add: prep_values_def)

lemma prep_values_Cons_Fin [simp]: "prep_values (Fin y # xs) = Fin y # prep_values xs"
  by (simp add: prep_values_def)

lemma prep_values_Fin [simp]: "prep_values (map Fin ys) = map Fin ys"
  by (simp add: prep_values_def)

lemma length_diff [simp]: "length (diff xs) = length xs"
  by (simp add: diff_def shift1_def)

lemma length_rolling_mean [simp]: "length (rolling_mean w xs) = length xs"
  by (simp add: rolling_mean_def roll_mean_def)

lemma length_ewm_loop [simp]: "length (ewm_loop f m W n xs) = length xs"
  by (induction xs arbitrary: m W n) (simp_all add: Let_def)

lemma length_ewm [simp]: "length (ewm sp xs) = length xs"
  by (simp add: ewm_def Let_def split: list.splits)

lemma length_ewm_mean [simp]: "length (ewm_mean sp xs) = length xs"
  by (simp add: ewm_mean_def)

lemma length_rs_of [simp]: "length (rs_of a b) = min (length a) (length b)"
  by (simp add: rs_of_def)

lemma length_rsi_of [simp]: "length (rsi_of r) = length r"
  by (simp add: rsi_of_def)

lemma length_gd [simp]:
  "length (gd_gain c) = length c" "length (gd_loss c) = length c"
  "length (gd_avg_gain p c) = length c" "length (gd_avg_loss p c) = length c"
  "length (gd_rsi p c) = length c"
  by (simp_all add: gd_gain_def gd_loss_def gd_avg_gain_def gd_avg_loss_def gd_rsi_def
      clip_lower_def clip_upper_def neg_def)

lemma length_st [simp]:
  "length (st_gain c) = length c" "length (st_loss c) = length c"
  "length (st_avg_gain p c) = length c" "length (st_avg_loss p c) = length c"
  "length (st_rsi p c) = length c"
  by (simp_all add: st_gain_def st_loss_def st_avg_gain_def st_avg_loss_def st_rsi_def
      where_gt0_def where_lt0_def neg_def)

lemma fsum_Fin_aux: "foldl fadd (Fin a) (map Fin ys) = Fin (a + sum_list ys)"
  by (induction ys arbitrary: a) (simp_all add: add.assoc)

lemma fsum_Fin: "fsum (map Fin ys) = Fin (sum_list ys)"
  by (simp add: fsum_def fsum_Fin_aux)

lemma window_Fin: "window w (map Fin ys) i = map Fin (drop (Suc i - w) (take (Suc i) ys))"
  by (simp add: window_def take_map drop_map)

lemma window_mean_Fin:
  "window_mean w (map Fin ys) =
     (if w \<le> length ys \<and> 0 < length ys then Fin (sum_list ys / real (length ys)) else NaN)"
  by (simp add: window_mean_def Let_def isna_def fsum_Fin filter_map o_def)

lemma sum_list_window:
  assumes "i < length ys"
  shows "sum_list (drop (Suc i - w) (take (Suc i) ys)) = (\<Sum>k = Suc i - w..i. ys ! k)"
proof -
  let ?a = "Suc i - w"
  have len: "length (drop ?a (take (Suc i) ys)) = Suc i - ?a"
    using assms by simp
  have "sum_list (drop ?a (take (Suc i) ys)) = (\<Sum>j = 0..<Suc i - ?a. drop ?a (take (Suc i) ys) ! j)"
    by (simp only: sum_list_sum_nth len)
  also have "\<dots> = (\<Sum>j = 0..<Suc i - ?a. ys ! (?a + j))"
    using assms by (intro sum.cong) auto
  also have "\<dots> = (\<Sum>k = ?a..<Suc i. ys ! k)"
    using sum.shift_bounds_nat_ivl [of "\<lambda>k. ys ! k" 0 ?a "Suc i - ?a"] by (simp add: add.commute)
  also have "\<dots> = (\<Sum>k = ?a..i. ys ! k)"
    by (simp add: atLeastLessThanSuc_atLeastAtMost)
  finally show ?thesis .
qed

lemma rolling_mean_Fin_nth:
  assumes "i < length ys"
  shows "rolling_mean w (map Fin ys) ! i =
     (if 0 < w \<and> w \<le> Suc i then Fin ((\<Sum>k = Suc i - w..i. ys ! k) / real w) else NaN)"
proof -
  have len: "length (drop (Suc i - w) (take (Suc i) ys)) = min w (Suc i)"
    using assms by auto
  show ?thesis
    using assms
    by (auto simp add: rolling_mean_def roll_mean_def window_Fin window_mean_Fin sum_list_window len min_def
        simp del: take_Suc_conv_app_nth)
qed

section \<open>Moving averages\<close>



section \<open>Failures\<close>

text \<open>
  Claim C3, as amended.  On a Series of length 0 both scripts report the failure and stop
  (\<open>EmptyInput\<close>) before any indicator arithmetic, and this is their only failure: with
  the windows 20, 50 and 14 that the scripts hard-code, they fail exactly where the
  specification's conditions do.  Neither script has a window or lookback input, and no
  run ends with \<open>InvalidParameter\<close>.
\<close>

theorem C3_failures:
  "failure_of (get_data df) = spec_failure 20 50 14 (length (Close df)) \<and>
   failure_of (streamlit_indicators df) = spec_failure 20 50 14 (length (Close df)) \<and>
   get_data df \<noteq> Inl InvalidParameter \<and>
   streamlit_indicators df \<noteq> Inl InvalidParameter \<and>
   (length (Close df) = 0) = (get_data df = Inl EmptyInput) \<and>
   (length (Close df) = 0) = (streamlit_indicators df = Inl EmptyInput)"
  by (simp add: failure_of_def spec_failure_def get_data_def streamlit_indicators_def empty_def)

text \<open>
  The claim as stated asks for \<open>InvalidParameter\<close> at \<open>fast = 0\<close> and at \<open>p = -1\<close>.  On a
  one-bar Series the specification's conditions give that failure, while both scripts,
  which take no such input, return a frame.
\<close>

theorem C3_invalid_parameter_counterexample:
  "failure_of (get_data \<lparr> Open = [Fin 1], High = [Fin 1], Low = [Fin 1], Close = [Fin 1],
        Volume = [Fin 1] \<rparr>) = None \<and>
   failure_of (streamlit_indicators \<lparr> Open = [Fin 1], High = [Fin 1], Low = [Fin 1],
        Close = [Fin 1], Volume = [Fin 1] \<rparr>) = None \<and>
   spec_failure 0 50 14 (length [Fin 1]) = Some InvalidParameter \<and>
   spec_failure 20 50 (- 1) (length [Fin 1]) = Some InvalidParameter"
  by (simp add: failure_of_def spec_failure_def get_data_def streamlit_indicators_def empty_def)

section \<open>The input bars\<close>

lemma get_data_inplace_result:
  assumes "\<not> empty (h df)"
  shows "get_data_inplace h df =
     Inr (h(df := (h df)\<lparr>col_SMA_20 := Some (rolling_mean 20 (Close (h df))),
                          col_SMA_50 := Some (rolling_mean 50 (Close (h df))),
                          col_RSI := Some (gd_rsi 14 (Close (h df)))\<rparr>), df)"
  using assms
  by (simp add: get_data_inplace_def set_SMA_20_def set_SMA_50_def set_RSI_def Let_def)

lemma streamlit_indicators_inplace_result:
  assumes "\<not> empty (h data)"
  shows "streamlit_indicators_inplace h data =
     Inr (h(data := (h data)\<lparr>col_SMA_20 := Some (rolling_mean 20 (Close (h data))),
                              col_SMA_50 := Some (rolling_mean 50 (Close (h data))),
                              col_RSI := Some (st_rsi 14 (Close (h data)))\<rparr>))"
  using assms
  by (simp add: streamlit_indicators_inplace_def set_SMA_20_def set_SMA_50_def set_RSI_def Let_def)

lemma iloc_last: "xs \<noteq> [] \<Longrightarrow> iloc xs (- 1) = Inr (xs ! (length xs - 1))"
  by (cases xs) (simp_all add: iloc_def Let_def)

lemma iloc_last2: "2 \<le> length xs \<Longrightarrow> iloc xs (- 2) = Inr (xs ! (length xs - 2))"
  by (simp add: iloc_def Let_def nat_diff_distrib')

lemma gold_dashboard_script_inplace_runs:
  assumes "2 \<le> length (Close (h df))"
    and "Close (h df) ! (length (Close (h df)) - 1) \<noteq> Fin 0"
  shows "\<exists>v. gold_dashboard_script_inplace h df =
     Inr (h(df := (h df)\<lparr>col_SMA_20 := Some (rolling_mean 20 (Close (h df))),
                          col_SMA_50 := Some (rolling_mean 50 (Close (h df))),
                          col_RSI := Some (gd_rsi 14 (Close (h df)))\<rparr>), df, v)"
proof -
  have ne: "\<not> empty (h df)"
    using assms(1) by (auto simp add: empty_def)
  have c: "Close (h df) \<noteq> []" and r: "gd_rsi 14 (Close (h df)) \<noteq> []"
    using assms(1) by (auto simp add: length_0_conv [symmetric] simp del: length_0_conv)
  show ?thesis
    unfolding gold_dashboard_script_inplace_def get_data_inplace_result [of h df, OF ne]
    using assms
    by (simp add: read_frame_def getitem_def iloc_last [OF c] iloc_last [OF r] iloc_last2
        py_truediv_def Let_def)
qed

lemma streamlit_script_inplace_runs:
  assumes "2 \<le> length (Close (h df))"
    and "Close (h df) ! (length (Close (h df)) - 2) \<noteq> Fin 0"
  shows "\<exists>cv. streamlit_script_inplace h df =
     Inr (h(df := (h df)\<lparr>col_SMA_20 := Some (rolling_mean 20 (Close (h df))),
                          col_SMA_50 := Some (rolling_mean 50 (Close (h df))),
                          col_RSI := Some (st_rsi 14 (Close (h df)))\<rparr>), cv)"
proof -
  have ne: "\<not> empty (h df)"
    using assms(1) by (auto simp add: empty_def)
  have c: "Close (h df) \<noteq> []" and r: "st_rsi 14 (Close (h df)) \<noteq> []"
    using assms(1) by (auto simp add: length_0_conv [symmetric] simp del: length_0_conv)
  show ?thesis
    unfolding streamlit_script_inplace_def streamlit_indicators_inplace_result [of h df, OF ne]
    using assms
    by (simp add: read_frame_def getitem_def get_current_values_def iloc_last [OF c]
        iloc_last [OF r] iloc_last2 py_truediv_def Let_def)
qed

text \<open>
  Claim C9, as amended.  On an empty frame both scripts stop before any assignment.
  Otherwise the three indicator columns are assigned into the fetched object itself:
  after the computation the object behind the reference has its Open, High, Low, Close
  and Volume columns unchanged and has gained \<open>SMA_20\<close>, \<open>SMA_50\<close> and \<open>RSI\<close>; no other
  object of the heap is touched; \<open>get_data\<close> returns the reference it was given, so the
  frame with the indicators is the fetched object and not a fresh one; read through its
  columns, the object is the frame that the state-passing functions \<open>get_data\<close> and
  \<open>streamlit_indicators\<close> compute from the five fetched columns.  After the assignment of
  \<open>RSI\<close> neither script writes to the object again: a run that reaches the scalars ends
  with the heap as the indicator computation left it, and with at least two bars and a
  non-zero divisor the run does reach them.
\<close>

theorem C9_in_place:
  "(empty (h df) \<longrightarrow>
      get_data_inplace h df = Inl EmptyInput \<and> streamlit_indicators_inplace h df = Inl EmptyInput) \<and>
   (\<not> empty (h df) \<longrightarrow>
      (\<exists>h'. get_data_inplace h df = Inr (h', df) \<and>
         Open (h' df) = Open (h df) \<and> High (h' df) = High (h df) \<and> Low (h' df) = Low (h df) \<and>
         Close (h' df) = Close (h df) \<and> Volume (h' df) = Volume (h df) \<and>
         col_SMA_20 (h' df) = Some (rolling_mean 20 (Close (h df))) \<and>
         col_SMA_50 (h' df) = Some (rolling_mean 50 (Close (h df))) \<and>
         col_RSI (h' df) = Some (gd_rsi 14 (Close (h df))) \<and>
         (\<forall>r. r \<noteq> df \<longrightarrow> h' r = h r) \<and>
         (\<exists>fr. get_data (fetched_frame (h df)) = Inr fr \<and> read_frame (h' df) = Inr fr) \<and>
         (\<forall>h'' r v. gold_dashboard_script_inplace h df = Inr (h'', r, v) \<longrightarrow> h'' = h' \<and> r = df) \<and>
         (2 \<le> length (Close (h df)) \<and> Close (h df) ! (length (Close (h df)) - 1) \<noteq> Fin 0 \<longrightarrow>
            (\<exists>v. gold_dashboard_script_inplace h df = Inr (h', df, v)))) \<and>
      (\<exists>h'. streamlit_indicators_inplace h df = Inr h' \<and>
         Open (h' df) = Open (h df) \<and> High (h' df) = High (h df) \<and> Low (h' df) = Low (h df) \<and>
         Close (h' df) = Close (h df) \<and> Volume (h' df) = Volume (h df) \<and>
         col_SMA_20 (h' df) = Some (rolling_mean 20 (Close (h df))) \<and>
         col_SMA_50 (h' df) = Some (rolling_mean 50 (Close (h df))) \<and>
         col_RSI (h' df) = Some (st_rsi 14 (Close (h df))) \<and>
         (\<forall>r. r \<noteq> df \<longrightarrow> h' r = h r) \<and>
         (\<exists>fr. streamlit_indicators (fetched_frame (h df)) = Inr fr \<and> read_frame (h' df) = Inr fr) \<and>
         (\<forall>h'' cv. streamlit_script_inplace h df = Inr (h'', cv) \<longrightarrow> h'' = h') \<and>
         (2 \<le> length (Close (h df)) \<and> Close (h df) ! (length (Close (h df)) - 2) \<noteq> Fin 0 \<longrightarrow>
            (\<exists>cv. streamlit_script_inplace h df = Inr (h', cv)))))"
proof -
  have e: "empty (fetched_frame (h df)) = empty (h df)"
    by (simp add: empty_def fetched_frame_def)
  have empty_case: "get_data_inplace h df = Inl EmptyInput \<and>
      streamlit_indicators_inplace h df = Inl EmptyInput" if "empty (h df)"
    using that by (simp add: get_data_inplace_def streamlit_indicators_inplace_def)
  have gd: "\<exists>h'. get_data_inplace h df = Inr (h', df) \<and>
         Open (h' df) = Open (h df) \<and> High (h' df) = High (h df) \<and> Low (h' df) = Low (h df) \<and>
         Close (h' df) = Close (h df) \<and> Volume (h' df) = Volume (h df) \<and>
         col_SMA_20 (h' df) = Some (rolling_mean 20 (Close (h df))) \<and>
         col_SMA_50 (h' df) = Some (rolling_mean 50 (Close (h df))) \<and>
         col_RSI (h' df) = Some (gd_rsi 14 (Close (h df))) \<and>
         (\<forall>r. r \<noteq> df \<longrightarrow> h' r = h r) \<and>
         (\<exists>fr. get_data (fetched_frame (h df)) = Inr fr \<and> read_frame (h' df) = Inr fr) \<and>
         (\<forall>h'' r v. gold_dashboard_script_inplace h df = Inr (h'', r, v) \<longrightarrow> h'' = h' \<and> r = df) \<and>
         (2 \<le> length (Close (h df)) \<and> Close (h df) ! (length (Close (h df)) - 1) \<noteq> Fin 0 \<longrightarrow>
            (\<exists>v. gold_dashboard_script_inplace h df = Inr (h', df, v)))"
    if ne: "\<not> empty (h df)"
  proof -
    let ?h' = "h(df := (h df)\<lparr>col_SMA_20 := Some (rolling_mean 20 (Close (h df))),
                          col_SMA_50 := Some (rolling_mean 50 (Close (h df))),
                          col_RSI := Some (gd_rsi 14 (Close (h df)))\<rparr>)"
    have r: "get_data_inplace h df = Inr (?h', df)"
      by (rule get_data_inplace_result [of h df, OF ne])
    have link: "\<exists>fr. get_data (fetched_frame (h df)) = Inr fr \<and> read_frame (?h' df) = Inr fr"
      using ne e by (simp add: get_data_def read_frame_def getitem_def fetched_frame_def)
    have later: "\<forall>h'' r v. gold_dashboard_script_inplace h df = Inr (h'', r, v) \<longrightarrow> h'' = ?h' \<and> r = df"
      unfolding gold_dashboard_script_inplace_def r
      by (auto simp add: Let_def split: sum.splits)
    have runs: "2 \<le> length (Close (h df)) \<and> Close (h df) ! (length (Close (h df)) - 1) \<noteq> Fin 0 \<longrightarrow>
            (\<exists>v. gold_dashboard_script_inplace h df = Inr (?h', df, v))"
      using gold_dashboard_script_inplace_runs [of h df] by blast
    show ?thesis
      using r link later runs by (intro exI [of _ ?h']) simp
  qed
  have st: "\<exists>h'. streamlit_indicators_inplace h df = Inr h' \<and>
         Open (h' df) = Open (h df) \<and> High (h' df) = High (h df) \<and> Low (h' df) = Low (h df) \<and>
         Close (h' df) = Close (h df) \<and> Volume (h' df) = Volume (h df) \<and>
         col_SMA_20 (h' df) = Some (rolling_mean 20 (Close (h df))) \<and>
         col_SMA_50 (h' df) = Some (rolling_mean 50 (Close (h df))) \<and>
         col_RSI (h' df) = Some (st_rsi 14 (Close (h df))) \<and>
         (\<forall>r. r \<noteq> df \<longrightarrow> h' r = h r) \<and>
         (\<exists>fr. streamlit_indicators (fetched_frame (h df)) = Inr fr \<and> read_frame (h' df) = Inr fr) \<and>
         (\<forall>h'' cv. streamlit_script_inplace h df = Inr (h'', cv) \<longrightarrow> h'' = h') \<and>
         (2 \<le> length (Close (h df)) \<and> Close (h df) ! (length (Close (h df)) - 2) \<noteq> Fin 0 \<longrightarrow>
            (\<exists>cv. streamlit_script_inplace h df = Inr (h', cv)))"
    if ne: "\<not> empty (h df)"
  proof -
    let ?h' = "h(df := (h df)\<lparr>col_SMA_20 := Some (rolling_mean 20 (Close (h df))),
                          col_SMA_50 := Some (rolling_mean 50 (Close (h df))),
                          col_RSI := Some (st_rsi 14 (Close (h df)))\<rparr>)"
    have r: "streamlit_indicators_inplace h df = Inr ?h'"
      by (rule streamlit_indicators_inplace_result [of h df, OF ne])
    have link: "\<exists>fr. streamlit_indicators (fetched_frame (h df)) = Inr fr \<and> read_frame (?h' df) = Inr fr"
      using ne e
      by (simp add: streamlit_indicators_def calculate_indicators_def read_frame_def getitem_def
          fetched_frame_def)
    have later: "\<forall>h'' cv. streamlit_script_inplace h df = Inr (h'', cv) \<longrightarrow> h'' = ?h'"
      unfolding streamlit_script_inplace_def r
      by (auto split: sum.splits)
    have runs: "2 \<le> length (Close (h df)) \<and> Close (h df) ! (length (Close (h df)) - 2) \<noteq> Fin 0 \<longrightarrow>
            (\<exists>cv. streamlit_script_inplace h df = Inr (?h', cv))"
      using streamlit_script_inplace_runs [of h df] by blast
    show ?thesis
      using r link later runs by (intro exI [of _ ?h']) simp
  qed
  show ?thesis
    using empty_case gd st by blast
qed

text \<open>Two bars, behind the reference 0, run through both scripts.\<close>

theorem C9_in_place_witness:
  "(\<exists>h'. get_data_inplace
        (\<lambda>r. \<lparr> Open = [Fin 10, Fin 11], High = [Fin 12, Fin 13], Low = [Fin 9, Fin 10],
                Close = [Fin 11, Fin 12], Volume = [Fin 5, Fin 6],
                col_SMA_20 = None, col_SMA_50 = None, col_RSI = None \<rparr>) 0 = Inr (h', 0) \<and>
      Open (h' 0) = [Fin 10, Fin 11] \<and> High (h' 0) = [Fin 12, Fin 13] \<and>
      Low (h' 0) = [Fin 9, Fin 10] \<and> Close (h' 0) = [Fin 11, Fin 12] \<and>
      Volume (h' 0) = [Fin 5, Fin 6] \<and>
      col_RSI (h' 0) = Some (gd_rsi 14 [Fin 11, Fin 12]) \<and> col_RSI (h' 1) = None \<and>
      (\<exists>v. gold_dashboard_script_inplace
        (\<lambda>r. \<lparr> Open = [Fin 10, Fin 11], High = [Fin 12, Fin 13], Low = [Fin 9, Fin 10],
                Close = [Fin 11, Fin 12], Volume = [Fin 5, Fin 6],
                col_SMA_20 = None, col_SMA_50 = None, col_RSI = None \<rparr>) 0 = Inr (h', 0, v))) \<and>
   (\<exists>h'. streamlit_indicators_inplace
        (\<lambda>r. \<lparr> Open = [Fin 10, Fin 11], High = [Fin 12, Fin 13], Low = [Fin 9, Fin 10],
                Close = [Fin 11, Fin 12], Volume = [Fin 5, Fin 6],
                col_SMA_20 = None, col_SMA_50 = None, col_RSI = None \<rparr>) 0 = Inr h' \<and>
      Open (h' 0) = [Fin 10, Fin 11] \<and> High (h' 0) = [Fin 12, Fin 13] \<and>
      Low (h' 0) = [Fin 9, Fin 10] \<and> Close (h' 0) = [Fin 11, Fin 12] \<and>
      Volume (h' 0) = [Fin 5, Fin 6] \<and>
      col_RSI (h' 0) = Some (st_rsi 14 [Fin 11, Fin 12]) \<and> col_RSI (h' 1) = None \<and>
      (\<exists>cv. streamlit_script_inplace
        (\<lambda>r. \<lparr> Open = [Fin 10, Fin 11], High = [Fin 12, Fin 13], Low = [Fin 9, Fin 10],
                Close = [Fin 11, Fin 12], Volume = [Fin 5, Fin 6],
                col_SMA_20 = None, col_SMA_50 = None, col_RSI = None \<rparr>) 0 = Inr (h', cv)))"
proof -
  let ?obj = "\<lparr> Open = [Fin 10, Fin 11], High = [Fin 12, Fin 13], Low = [Fin 9, Fin 10],
                Close = [Fin 11, Fin 12], Volume = [Fin 5, Fin 6],
                col_SMA_20 = None, col_SMA_50 = None, col_RSI = None \<rparr>"
  let ?h = "\<lambda>r::nat. ?obj"
  have ne: "\<not> empty (?h 0)"
    by (simp add: empty_def)
  have l1: "2 \<le> length (Close (?h 0)) \<and> Close (?h 0) ! (length (Close (?h 0)) - 1) \<noteq> Fin 0"
    by simp
  have l2: "2 \<le> length (Close (?h 0)) \<and> Close (?h 0) ! (length (Close (?h 0)) - 2) \<noteq> Fin 0"
    by simp
  from C9_in_place [of ?h 0] ne l1
  obtain h1 where h1: "get_data_inplace ?h 0 = Inr (h1, 0)"
      "Open (h1 0) = Open (?h 0)" "High (h1 0) = High (?h 0)" "Low (h1 0) = Low (?h 0)"
      "Close (h1 0) = Close (?h 0)" "Volume (h1 0) = Volume (?h 0)"
      "col_RSI (h1 0) = Some (gd_rsi 14 (Close (?h 0)))" "\<forall>r. r \<noteq> 0 \<longrightarrow> h1 r = ?h r"
      "\<exists>v. gold_dashboard_script_inplace ?h 0 = Inr (h1, 0, v)"
    by blast
  from C9_in_place [of ?h 0] ne l2
  obtain h2 where h2: "streamlit_indicators_inplace ?h 0 = Inr h2"
      "Open (h2 0) = Open (?h 0)" "High (h2 0) = High (?h 0)" "Low (h2 0) = Low (?h 0)"
      "Close (h2 0) = Close (?h 0)" "Volume (h2 0) = Volume (?h 0)"
      "col_RSI (h2 0) = Some (st_rsi 14 (Close (?h 0)))" "\<forall>r. r \<noteq> 0 \<longrightarrow> h2 r = ?h r"
      "\<exists>cv. streamlit_script_inplace ?h 0 = Inr (h2, cv)"
    by blast
  have a: "\<exists>h'. get_data_inplace ?h 0 = Inr (h', 0) \<and>
      Open (h' 0) = [Fin 10, Fin 11] \<and> High (h' 0) = [Fin 12, Fin 13] \<and>
      Low (h' 0) = [Fin 9, Fin 10] \<and> Close (h' 0) = [Fin 11, Fin 12] \<and>
      Volume (h' 0) = [Fin 5, Fin 6] \<and>
      col_RSI (h' 0) = Some (gd_rsi 14 [Fin 11, Fin 12]) \<and> col_RSI (h' 1) = None \<and>
      (\<exists>v. gold_dashboard_script_inplace ?h 0 = Inr (h', 0, v))"
    using h1 by (intro exI [of _ h1]) simp
  have b: "\<exists>h'. streamlit_indicators_inplace ?h 0 = Inr h' \<and>
      Open (h' 0) = [Fin 10, Fin 11] \<and> High (h' 0) = [Fin 12, Fin 13] \<and>
      Low (h' 0) = [Fin 9, Fin 10] \<and> Close (h' 0) = [Fin 11, Fin 12] \<and>
      Volume (h' 0) = [Fin 5, Fin 6] \<and>
      col_RSI (h' 0) = Some (st_rsi 14 [Fin 11, Fin 12]) \<and> col_RSI (h' 1) = None \<and>
      (\<exists>cv. streamlit_script_inplace ?h 0 = Inr (h', cv))"
    using h2 by (intro exI [of _ h2]) simp
  show ?thesis
    using a b by (rule conjI)
qed

text \<open>
  The claim as stated has the input not mutated and no handle to it retained.  On the two
  bars above, the object behind the reference 0 differs after the computation from what
  it was before (it has the three indicator columns, which it did not have), and the
  reference that \<open>get_data\<close> returns is the reference 0 of the input.
\<close>

theorem C9_input_object_counterexample:
  "(\<exists>h'. get_data_inplace
        (\<lambda>r. \<lparr> Open = [Fin 10, Fin 11], High = [Fin 12, Fin 13], Low = [Fin 9, Fin 10],
                Close = [Fin 11, Fin 12], Volume = [Fin 5, Fin 6],
                col_SMA_20 = None, col_SMA_50 = None, col_RSI = None \<rparr>) 0 = Inr (h', 0) \<and>
      h' 0 \<noteq> \<lparr> Open = [Fin 10, Fin 11], High = [Fin 12, Fin 13], Low = [Fin 9, Fin 10],
                Close = [Fin 11, Fin 12], Volume = [Fin 5, Fin 6],
                col_SMA_20 = None, col_SMA_50 = None, col_RSI = None \<rparr> \<and>
      col_SMA_20 (h' 0) \<noteq> None \<and> col_SMA_50 (h' 0) \<noteq> None \<and> col_RSI (h' 0) \<noteq> None) \<and>
   (\<exists>h'. streamlit_indicators_inplace
        (\<lambda>r. \<lparr> Open = [Fin 10, Fin 11], High = [Fin 12, Fin 13], Low = [Fin 9, Fin 10],
                Close = [Fin 11, Fin 12], Volume = [Fin 5, Fin 6],
                col_SMA_20 = None, col_SMA_50 = None, col_RSI = None \<rparr>) 0 = Inr h' \<and>
      h' 0 \<noteq> \<lparr> Open = [Fin 10, Fin 11], High = [Fin 12, Fin 13], Low = [Fin 9, Fin 10],
                Close = [Fin 11, Fin 12], Volume = [Fin 5, Fin 6],
                col_SMA_20 = None, col_SMA_50 = None, col_RSI = None \<rparr> \<and>
      col_SMA_20 (h' 0) \<noteq> None \<and> col_SMA_50 (h' 0) \<noteq> None \<and> col_RSI (h' 0) \<noteq> None)"
  by (simp add: get_data_inplace_def streamlit_indicators_inplace_def empty_def
      set_SMA_20_def set_SMA_50_def set_RSI_def Let_def)

section \<open>The change shown for a one-bar Series\<close>

lemma rolling_mean_single: "rolling_mean (Suc (Suc w)) [x] = [NaN]"
  by (simp add: rolling_mean_def roll_mean_def prep_values_def window_def window_mean_def Let_def)

lemma st_rsi_single: "st_rsi 14 [x] = [NaN]"
proof -
  have "rolling_mean 14 [y] = [NaN]" for y
    using rolling_mean_single [of 12 y] by (simp add: eval_nat_numeral)
  then show ?thesis
    by (simp add: st_rsi_def st_avg_gain_def st_avg_loss_def st_gain_def st_loss_def
        diff_def shift1_def where_gt0_def where_lt0_def neg_def rs_of_def rsi_of_def fsub_def)
qed

text \<open>
  Claim C10, as amended.  In gold\_dashboard\_streamlit.py, for a fetched Series of exactly
  one bar whose close is a finite number other than 0, the previous close falls back to
  the current price: the run does not fail (no position -2 is read), and
  \<open>price_change\<close> and \<open>percent_change\<close> are both 0.
\<close>

theorem C10_single_bar:
  assumes "Close fetched = [Fin c]" and "c \<noteq> 0"
  shows "\<exists>data cv. streamlit_script fetched = Inr (data, cv) \<and>
           current_price cv = Fin c \<and> prev_close cv = Fin c \<and>
           price_change cv = Fin 0 \<and> percent_change cv = Fin 0"
  using assms
  by (simp add: streamlit_script_def streamlit_indicators_def empty_def calculate_indicators_def
      get_current_values_def iloc_def py_truediv_def fsub_def st_rsi_single Let_def)

theorem C10_single_bar_witness:
  "\<exists>data cv. streamlit_script \<lparr> Open = [Fin 1990], High = [Fin 2001], Low = [Fin 1985],
        Close = [Fin 2000], Volume = [Fin 120] \<rparr> = Inr (data, cv) \<and>
           current_price cv = Fin 2000 \<and> prev_close cv = Fin 2000 \<and>
           price_change cv = Fin 0 \<and> percent_change cv = Fin 0"
  using C10_single_bar [of "\<lparr> Open = [Fin 1990], High = [Fin 2001], Low = [Fin 1985],
        Close = [Fin 2000], Volume = [Fin 120] \<rparr>" 2000]
  by simp

text \<open>
  The claim as stated covers every one-bar Series.  With a close of 0 the fallback makes
  \<open>prev_close\<close> 0 as well, and \<open>price_change / prev_close\<close> raises ZeroDivisionError.
\<close>

theorem C10_zero_close_counterexample:
  "streamlit_script \<lparr> Open = [Fin 0], High = [Fin 0], Low = [Fin 0], Close = [Fin 0],
      Volume = [Fin 0] \<rparr> = Inl ZeroDivisionError"
  by (simp add: streamlit_script_def streamlit_indicators_def empty_def calculate_indicators_def
      get_current_values_def iloc_def py_truediv_def fsub_def st_rsi_single Let_def)

text \<open>The sibling script reads position -2 unguarded and fails on one bar.\<close>

lemma gold_dashboard_single_bar:
  "Close df = [x] \<Longrightarrow> gold_dashboard_script df = Inl IndexError"
  by (simp add: gold_dashboard_script_def get_data_def empty_def iloc_def Let_def)

section \<open>Gains, losses and their averages are never negative\<close>

text \<open>
  Gains and losses are never negative, whatever the closes are (NaN and infinities
  included); both smoothings keep that, and so does the quotient \<open>rs\<close>.
\<close>

lemma nonneg_fadd: "nonneg a \<Longrightarrow> nonneg b \<Longrightarrow> nonneg (fadd a b)"
  by (cases a; cases b) simp_all

lemma nonneg_fmul: "0 \<le> w \<Longrightarrow> nonneg a \<Longrightarrow> nonneg (fmul (Fin w) a)"
  by (cases a) simp_all

lemma nonneg_fdiv_pos: "0 < w \<Longrightarrow> nonneg a \<Longrightarrow> nonneg (fdiv a (Fin w))"
  by (cases a) simp_all

lemma nonneg_fdiv: "nonneg a \<Longrightarrow> nonneg b \<Longrightarrow> nonneg (fdiv a b)"
  by (cases a; cases b) simp_all

lemma rsi_ok_step: "nonneg r \<Longrightarrow> rsi_ok (fsub (Fin 100) (fdiv (Fin 100) (fadd (Fin 1) r)))"
proof (cases r)
  case (Fin x)
  assume "nonneg r"
  with Fin have x: "0 \<le> x" by simp
  then have "100 / (1 + x) \<le> 100" and "0 \<le> 100 / (1 + x)"
    by (simp_all add: divide_le_eq)
  with x Fin show ?thesis
    by (simp add: fsub_def)
qed (simp_all add: fsub_def)

lemma set_map_prop: "(\<And>y. P (g y)) \<Longrightarrow> x \<in> set (map g xs) \<Longrightarrow> P x"
  by auto

lemma nonneg_clip_lower: "x \<in> set (clip_lower (Fin 0) xs) \<Longrightarrow> nonneg x"
proof -
  have "nonneg (if isna y \<or> \<not> flt y (Fin 0) then y else Fin 0)" for y
    by (cases y) (simp_all add: isna_def flt_def)
  then show "x \<in> set (clip_lower (Fin 0) xs) \<Longrightarrow> nonneg x"
    unfolding clip_lower_def by (rule set_map_prop)
qed

lemma nonneg_neg_clip_upper: "x \<in> set (neg (clip_upper (Fin 0) xs)) \<Longrightarrow> nonneg x"
proof -
  have "nonneg (fneg (if isna y \<or> \<not> fgt y (Fin 0) then y else Fin 0))" for y
    by (cases y) (simp_all add: isna_def)
  then have "nonneg ((fneg \<circ> (\<lambda>y. if isna y \<or> \<not> fgt y (Fin 0) then y else Fin 0)) y)" for y
    by simp
  then show "x \<in> set (neg (clip_upper (Fin 0) xs)) \<Longrightarrow> nonneg x"
    unfolding clip_upper_def neg_def map_map by (rule set_map_prop)
qed

lemma nonneg_where_gt0: "x \<in> set (where_gt0 xs (Fin 0)) \<Longrightarrow> nonneg x"
proof -
  have "nonneg (if fgt y (Fin 0) then y else Fin 0)" for y
    by (cases y) simp_all
  then show "x \<in> set (where_gt0 xs (Fin 0)) \<Longrightarrow> nonneg x"
    unfolding where_gt0_def by (rule set_map_prop)
qed

lemma nonneg_neg_where_lt0: "x \<in> set (neg (where_lt0 xs (Fin 0))) \<Longrightarrow> nonneg x"
proof -
  have "nonneg (fneg (if flt y (Fin 0) then y else Fin 0))" for y
    by (cases y) (simp_all add: flt_def)
  then have "nonneg ((fneg \<circ> (\<lambda>y. if flt y (Fin 0) then y else Fin 0)) y)" for y
    by simp
  then show "x \<in> set (neg (where_lt0 xs (Fin 0))) \<Longrightarrow> nonneg x"
    unfolding where_lt0_def neg_def map_map by (rule set_map_prop)
qed

lemma nonneg_foldl_fadd:
  "nonneg a \<Longrightarrow> \<forall>x\<in>set xs. nonneg x \<Longrightarrow> nonneg (foldl fadd a xs)"
  by (induction xs arbitrary: a) (simp_all add: nonneg_fadd)

lemma nonneg_window_mean:
  assumes "\<forall>x\<in>set win. nonneg x"
  shows "nonneg (window_mean w win)"
proof -
  let ?obs = "filter (\<lambda>x. \<not> isna x) win"
  have "nonneg (fsum ?obs)"
    unfolding fsum_def using assms by (intro nonneg_foldl_fadd) simp_all
  then have "0 < length ?obs \<Longrightarrow> nonneg (fdiv (fsum ?obs) (Fin (real (length ?obs))))"
    by (intro nonneg_fdiv_pos) simp_all
  then show ?thesis
    by (simp add: window_mean_def Let_def)
qed

lemma nonneg_prep_values: "\<forall>x\<in>set xs. nonneg x \<Longrightarrow> \<forall>x\<in>set (prep_values xs). nonneg x"
  by (auto simp add: prep_values_def)

lemma nonneg_roll_mean:
  assumes "\<forall>x\<in>set xs. nonneg x" and "y \<in> set (roll_mean w xs)"
  shows "nonneg y"
proof -
  from assms(2) obtain i where "y = window_mean w (window w xs i)"
    by (auto simp add: roll_mean_def)
  moreover have "\<forall>x\<in>set (window w xs i). nonneg x"
    using assms(1) by (auto simp add: window_def dest!: in_set_dropD in_set_takeD)
  ultimately show ?thesis
    by (simp add: nonneg_window_mean)
qed

lemma nonneg_rolling_mean:
  assumes "\<forall>x\<in>set xs. nonneg x" and "y \<in> set (rolling_mean w xs)"
  shows "nonneg y"
  using nonneg_roll_mean [OF nonneg_prep_values [OF assms(1)]] assms(2)
  by (simp add: rolling_mean_def)

lemma nonneg_ewm_loop:
  assumes "0 \<le> f" and "nonneg m" and "0 \<le> W" and "\<forall>x\<in>set xs. nonneg x"
    and "y \<in> set (ewm_loop f m W n xs)"
  shows "nonneg y"
  using assms(2-)
proof (induction xs arbitrary: m W n)
  case Nil
  then show ?case by simp
next
  case (Cons cur rest)
  let ?W1 = "if \<not> isna m then W * f else W"
  let ?m' = "if \<not> isna m then
               (if \<not> isna cur \<and> m \<noteq> cur
                then fdiv (fadd (fmul (Fin ?W1) m) (fmul (Fin 1) cur)) (Fin (?W1 + 1))
                else m)
             else if \<not> isna cur then cur else m"
  let ?W' = "if \<not> isna m \<and> \<not> isna cur then ?W1 + 1 else ?W1"
  let ?n' = "if \<not> isna cur then Suc n else n"
  have W1: "0 \<le> ?W1"
    using Cons.prems(2) assms(1) by simp
  have cur: "nonneg cur"
    using Cons.prems(3) by simp
  have blend: "nonneg (fdiv (fadd (fmul (Fin ?W1) m) (fmul (Fin 1) cur)) (Fin (?W1 + 1)))"
    using W1 cur Cons.prems(1)
    by (intro nonneg_fdiv_pos nonneg_fadd nonneg_fmul) simp_all
  have m': "nonneg ?m'"
  proof (cases "\<not> isna m \<and> \<not> isna cur \<and> m \<noteq> cur")
    case True
    then have "?m' = fdiv (fadd (fmul (Fin ?W1) m) (fmul (Fin 1) cur)) (Fin (?W1 + 1))"
      by simp
    then show ?thesis
      using blend by (simp only:)
  next
    case False
    then have "?m' = m \<or> ?m' = cur"
      by auto
    then show ?thesis
      using cur Cons.prems(1) by auto
  qed
  have W': "0 \<le> ?W'"
    using W1 by (auto split: if_splits)
  from Cons.prems(4) have "y = (if 1 \<le> ?n' then ?m' else NaN) \<or> y \<in> set (ewm_loop f ?m' ?W' ?n' rest)"
    by (simp add: Let_def)
  then show ?case
  proof
    assume "y = (if 1 \<le> ?n' then ?m' else NaN)"
    then show ?thesis using m' by simp
  next
    assume "y \<in> set (ewm_loop f ?m' ?W' ?n' rest)"
    then show ?thesis
      using Cons.IH [OF m' W'] Cons.prems(3) by simp
  qed
qed

lemma nonneg_ewm:
  assumes "1 \<le> sp" and "\<forall>x\<in>set xs. nonneg x" and "y \<in> set (ewm sp xs)"
  shows "nonneg y"
proof (cases xs)
  case Nil
  with assms(3) show ?thesis by (simp add: ewm_def)
next
  case (Cons x rest)
  have f: "0 \<le> 1 - 2 / (real sp + 1)"
    using assms(1) by (simp add: field_simps)
  have x: "nonneg x" and rest: "\<forall>z\<in>set rest. nonneg z"
    using assms(2) Cons by simp_all
  from assms(3) Cons
  have "y = (if isna x then NaN else x) \<or>
        y \<in> set (ewm_loop (1 - 2 / (real sp + 1)) x 1 (if isna x then 0 else Suc 0) rest)"
    by (auto simp add: ewm_def Let_def split: if_splits)
  then show ?thesis
  proof
    assume "y = (if isna x then NaN else x)"
    then show ?thesis using x by simp
  next
    assume "y \<in> set (ewm_loop (1 - 2 / (real sp + 1)) x 1 (if isna x then 0 else Suc 0) rest)"
    then show ?thesis
      using nonneg_ewm_loop [OF f x zero_le_one rest] by blast
  qed
qed

lemma nonneg_ewm_mean:
  assumes "1 \<le> sp" and "\<forall>x\<in>set xs. nonneg x" and "y \<in> set (ewm_mean sp xs)"
  shows "nonneg y"
  using nonneg_ewm [OF assms(1) nonneg_prep_values [OF assms(2)]] assms(3)
  by (simp add: ewm_mean_def)

lemma rsi_ok_rsi_of:
  assumes "\<forall>x\<in>set a. nonneg x" and "\<forall>x\<in>set b. nonneg x" and "y \<in> set (rsi_of (rs_of a b))"
  shows "rsi_ok y"
proof -
  from assms(3) obtain u v where "u \<in> set a" "v \<in> set b"
      and y: "y = fsub (Fin 100) (fdiv (Fin 100) (fadd (Fin 1) (fdiv u v)))"
    by (auto simp add: rsi_of_def rs_of_def dest: set_zip_leftD set_zip_rightD)
  then have "nonneg (fdiv u v)"
    using assms(1,2) by (simp add: nonneg_fdiv)
  then show ?thesis
    unfolding y by (rule rsi_ok_step)
qed

lemma rsi_ok_gd_rsi: "1 \<le> p \<Longrightarrow> y \<in> set (gd_rsi p c) \<Longrightarrow> rsi_ok y"
  unfolding gd_rsi_def gd_avg_gain_def gd_avg_loss_def gd_gain_def gd_loss_def
  by (erule rsi_ok_rsi_of [rotated 2])
    (blast intro: nonneg_ewm_mean nonneg_clip_lower nonneg_neg_clip_upper)+

lemma rsi_ok_st_rsi: "y \<in> set (st_rsi p c) \<Longrightarrow> rsi_ok y"
  unfolding st_rsi_def st_avg_gain_def st_avg_loss_def st_gain_def st_loss_def Let_def
  by (erule rsi_ok_rsi_of [rotated 2])
    (blast intro: nonneg_rolling_mean nonneg_where_gt0 nonneg_neg_where_lt0)+

lemma rsi_ok_iff: "rsi_ok x \<longleftrightarrow> x = NaN \<or> (\<exists>r. x = Fin r \<and> 0 \<le> r \<and> r \<le> 100)"
  by (cases x) simp_all

section \<open>The columns of the RSI computation on finite closes\<close>

lemma diff_Fin_nth:
  assumes "i < length cl"
  shows "diff (map Fin cl) ! i = (if i = 0 then NaN else Fin (delta_at cl i))"
proof (cases i)
  case 0
  with assms show ?thesis
    by (cases cl) (simp_all add: diff_def shift1_def fsub_def)
next
  case (Suc j)
  with assms have "shift1 (map Fin cl) ! i = Fin (cl ! j)"
    by (simp add: shift1_def)
  with assms Suc show ?thesis
    by (simp add: diff_def shift1_def fsub_def delta_at_def)
qed

lemma delta_at_0 [simp]: "delta_at cl 0 = 0"
  by (simp add: delta_at_def)

lemma gd_gain_Fin_nth:
  "i < length cl \<Longrightarrow> gd_gain (map Fin cl) ! i = (if i = 0 then NaN else Fin (gain_at cl i))"
  by (cases "i = 0") (simp_all add: gd_gain_def clip_lower_def diff_Fin_nth gain_at_def isna_def flt_def)

lemma gd_loss_Fin_nth:
  "i < length cl \<Longrightarrow> gd_loss (map Fin cl) ! i = (if i = 0 then NaN else Fin (loss_at cl i))"
  by (cases "i = 0") (simp_all add: gd_loss_def clip_upper_def neg_def diff_Fin_nth loss_at_def isna_def)

lemma gain_at_0 [simp]: "gain_at cl 0 = 0" and loss_at_0 [simp]: "loss_at cl 0 = 0"
  by (simp_all add: gain_at_def loss_at_def)

lemma gain_at_nonneg [simp]: "0 \<le> gain_at cl i" and loss_at_nonneg [simp]: "0 \<le> loss_at cl i"
  by (simp_all add: gain_at_def loss_at_def)

lemma st_gain_Fin_nth:
  "i < length cl \<Longrightarrow> st_gain (map Fin cl) ! i = Fin (gain_at cl i)"
  by (cases "i = 0") (simp_all add: st_gain_def where_gt0_def diff_Fin_nth gain_at_def Let_def max_def)

lemma st_loss_Fin_nth:
  "i < length cl \<Longrightarrow> st_loss (map Fin cl) ! i = Fin (loss_at cl i)"
  by (cases "i = 0")
    (simp_all add: st_loss_def where_lt0_def neg_def diff_Fin_nth loss_at_def Let_def flt_def max_def)

lemma st_gain_Fin: "st_gain (map Fin cl) = map Fin (map (gain_at cl) [0..<length cl])"
  by (rule nth_equalityI) (simp_all add: st_gain_Fin_nth)

lemma st_loss_Fin: "st_loss (map Fin cl) = map Fin (map (loss_at cl) [0..<length cl])"
  by (rule nth_equalityI) (simp_all add: st_loss_Fin_nth)

lemma gd_gain_Fin:
  "cl \<noteq> [] \<Longrightarrow> gd_gain (map Fin cl) = NaN # map Fin (map (gain_at cl) [1..<length cl])"
  by (rule nth_equalityI) (auto simp add: gd_gain_Fin_nth nth_Cons split: nat.splits)

lemma gd_loss_Fin:
  "cl \<noteq> [] \<Longrightarrow> gd_loss (map Fin cl) = NaN # map Fin (map (loss_at cl) [1..<length cl])"
  by (rule nth_equalityI) (auto simp add: gd_loss_Fin_nth nth_Cons split: nat.splits)

lemma st_avg_gain_Fin_nth:
  assumes "i < length cl"
  shows "st_avg_gain p (map Fin cl) ! i =
     (if 0 < p \<and> p \<le> Suc i then Fin ((\<Sum>k = Suc i - p..i. gain_at cl k) / real p) else NaN)"
proof -
  have "(\<Sum>k = Suc i - p..i. map (gain_at cl) [0..<length cl] ! k) = (\<Sum>k = Suc i - p..i. gain_at cl k)"
    using assms by (intro sum.cong) auto
  then show ?thesis
    using assms rolling_mean_Fin_nth [of i "map (gain_at cl) [0..<length cl]" p]
    by (simp add: st_avg_gain_def st_gain_Fin)
qed

lemma st_avg_loss_Fin_nth:
  assumes "i < length cl"
  shows "st_avg_loss p (map Fin cl) ! i =
     (if 0 < p \<and> p \<le> Suc i then Fin ((\<Sum>k = Suc i - p..i. loss_at cl k) / real p) else NaN)"
proof -
  have "(\<Sum>k = Suc i - p..i. map (loss_at cl) [0..<length cl] ! k) = (\<Sum>k = Suc i - p..i. loss_at cl k)"
    using assms by (intro sum.cong) auto
  then show ?thesis
    using assms rolling_mean_Fin_nth [of i "map (loss_at cl) [0..<length cl]" p]
    by (simp add: st_avg_loss_def st_loss_Fin)
qed

lemma rsi_nth:
  "i < length a \<Longrightarrow> i < length b \<Longrightarrow>
   rsi_of (rs_of a b) ! i = fsub (Fin 100) (fdiv (Fin 100) (fadd (Fin 1) (fdiv (a ! i) (b ! i))))"
  by (simp add: rsi_of_def rs_of_def)

lemma rsi_step_NaN [simp]:
  "fsub (Fin 100) (fdiv (Fin 100) (fadd (Fin 1) (fdiv NaN b))) = NaN"
  by (simp add: fsub_def)

lemma rsi_step_Fin:
  assumes "0 \<le> g" and "0 \<le> l"
  shows "fsub (Fin 100) (fdiv (Fin 100) (fadd (Fin 1) (fdiv (Fin g) (Fin l)))) =
     (if l = 0 then (if g = 0 then NaN else Fin 100) else Fin (100 - 100 / (1 + g / l)))"
proof -
  have "1 + g / l \<noteq> 0" if "l \<noteq> 0"
  proof -
    have "0 \<le> g / l" using assms by simp
    then show ?thesis by linarith
  qed
  then show ?thesis
    using assms by (auto simp add: fsub_def)
qed

section \<open>The simple smoothing rule\<close>

lemma sum_nonneg_eq_0: 
  fixes g :: "nat \<Rightarrow> real"
  assumes "\<And>k. 0 \<le> g k"
  shows "(\<Sum>k = a..b. g k) = 0 \<longleftrightarrow> (\<forall>k\<in>{a..b}. g k = 0)"
  using assms by (simp add: sum_nonneg_eq_0_iff)

lemma st_rsi_Fin_nth:
  assumes "i < length cl"
  shows "st_rsi p (map Fin cl) ! i =
     (if 0 < p \<and> p \<le> Suc i then
        (if (\<Sum>k = Suc i - p..i. loss_at cl k) = 0
         then (if (\<Sum>k = Suc i - p..i. gain_at cl k) = 0 then NaN else Fin 100)
         else Fin (100 - 100 / (1 + (\<Sum>k = Suc i - p..i. gain_at cl k) / (\<Sum>k = Suc i - p..i. loss_at cl k))))
      else NaN)"
proof (cases "0 < p \<and> p \<le> Suc i")
  case False
  then have "st_avg_gain p (map Fin cl) ! i = NaN"
    using assms by (auto simp add: st_avg_gain_Fin_nth)
  then have "st_rsi p (map Fin cl) ! i = NaN"
    using assms by (simp add: st_rsi_def rsi_nth fsub_def)
  then show ?thesis
    using False by (simp only: if_False)
next
  case True
  let ?g = "\<Sum>k = Suc i - p..i. gain_at cl k"
  let ?l = "\<Sum>k = Suc i - p..i. loss_at cl k"
  have g: "0 \<le> ?g / real p" and l: "0 \<le> ?l / real p"
    by (simp_all add: sum_nonneg)
  have "st_rsi p (map Fin cl) ! i =
      fsub (Fin 100) (fdiv (Fin 100) (fadd (Fin 1) (fdiv (Fin (?g / real p)) (Fin (?l / real p)))))"
    using assms True by (simp add: st_rsi_def rsi_nth st_avg_gain_Fin_nth st_avg_loss_Fin_nth)
  also have "\<dots> = (if ?l / real p = 0 then (if ?g / real p = 0 then NaN else Fin 100)
      else Fin (100 - 100 / (1 + (?g / real p) / (?l / real p))))"
    by (rule rsi_step_Fin [OF g l])
  also have "\<dots> = (if ?l = 0 then (if ?g = 0 then NaN else Fin 100)
      else Fin (100 - 100 / (1 + ?g / ?l)))"
    using True by simp
  finally show ?thesis
    using True by simp
qed

text \<open>
  Claim C7, as amended.  In gold\_dashboard\_streamlit.py (simple rolling mean, lookback
  \<open>p\<close>; the script passes 14), on finite closes: \<open>delta[0]\<close> is NaN; \<open>avg_gain[i]\<close>,
  \<open>avg_loss[i]\<close> and \<open>RSI[i]\<close> are NaN for every \<open>i < p - 1\<close>.  On closes on which float64
  is exact: \<open>delta[i]\<close> is \<open>Close[i] - Close[i-1]\<close> for \<open>i \<ge> 1\<close>, the gain is the delta
  where it is positive and 0 elsewhere, the loss is the negated delta where it is
  negative and 0 elsewhere; and for a lookback of at most 1024 and every \<open>i \<ge> p\<close>,
  \<open>avg_gain[i]\<close> is the mean of \<open>gain[i-p+1 .. i]\<close> and \<open>avg_loss[i]\<close> the mean of
  \<open>loss[i-p+1 .. i]\<close>, and \<open>RSI[i]\<close> is defined unless every gain and every loss of that
  window is 0.  Nothing is said about the index \<open>p - 1\<close>.
\<close>

theorem C7_simple_smoothing:
  assumes "0 < p" and "i < length cl"
  shows "diff (map Fin cl) ! 0 = NaN \<and>
         (0 < i \<and> list_all on_grid cl \<longrightarrow> diff (map Fin cl) ! i = Fin (cl ! i - cl ! (i - 1))) \<and>
         (list_all on_grid cl \<longrightarrow>
            st_gain (map Fin cl) ! i = Fin (gain_at cl i) \<and>
            st_loss (map Fin cl) ! i = Fin (loss_at cl i)) \<and>
         (i < p - 1 \<longrightarrow>
            st_avg_gain p (map Fin cl) ! i = NaN \<and> st_avg_loss p (map Fin cl) ! i = NaN \<and>
            st_rsi p (map Fin cl) ! i = NaN) \<and>
         (p \<le> i \<and> p \<le> 1024 \<and> list_all on_grid cl \<longrightarrow>
            st_avg_gain p (map Fin cl) ! i = Fin ((\<Sum>k = i + 1 - p..i. gain_at cl k) / real p) \<and>
            st_avg_loss p (map Fin cl) ! i = Fin ((\<Sum>k = i + 1 - p..i. loss_at cl k) / real p) \<and>
            (st_rsi p (map Fin cl) ! i = NaN) =
              ((\<forall>k\<in>{i + 1 - p..i}. gain_at cl k = 0) \<and> (\<forall>k\<in>{i + 1 - p..i}. loss_at cl k = 0)))"
proof -
  have "0 < length cl"
    using assms(2) by linarith
  from diff_Fin_nth [OF this] have d0: "diff (map Fin cl) ! 0 = NaN"
    by simp
  have di: "0 < i \<longrightarrow> diff (map Fin cl) ! i = Fin (cl ! i - cl ! (i - 1))"
    using assms by (simp add: diff_Fin_nth delta_at_def)
  have gl: "st_gain (map Fin cl) ! i = Fin (gain_at cl i) \<and>
      st_loss (map Fin cl) ! i = Fin (loss_at cl i)"
    using assms(2) by (simp add: st_gain_Fin_nth st_loss_Fin_nth)
  have early: "st_avg_gain p (map Fin cl) ! i = NaN \<and> st_avg_loss p (map Fin cl) ! i = NaN \<and>
        st_rsi p (map Fin cl) ! i = NaN" if "i < p - 1"
    using that assms by (simp add: st_avg_gain_Fin_nth st_avg_loss_Fin_nth st_rsi_Fin_nth)
  have late: "st_avg_gain p (map Fin cl) ! i = Fin ((\<Sum>k = i + 1 - p..i. gain_at cl k) / real p) \<and>
        st_avg_loss p (map Fin cl) ! i = Fin ((\<Sum>k = i + 1 - p..i. loss_at cl k) / real p) \<and>
        (st_rsi p (map Fin cl) ! i = NaN) =
          ((\<forall>k\<in>{i + 1 - p..i}. gain_at cl k = 0) \<and> (\<forall>k\<in>{i + 1 - p..i}. loss_at cl k = 0))"
    if "p \<le> i"
  proof -
    have "(st_rsi p (map Fin cl) ! i = NaN) =
        ((\<Sum>k = Suc i - p..i. gain_at cl k) = 0 \<and> (\<Sum>k = Suc i - p..i. loss_at cl k) = 0)"
      using that assms by (auto simp add: st_rsi_Fin_nth)
    then show ?thesis
      using that assms
      by (simp add: st_avg_gain_Fin_nth st_avg_loss_Fin_nth sum_nonneg_eq_0)
  qed
  show ?thesis
    using d0 di gl early late by blast
qed

text \<open>Five closes and the lookback 3.\<close>

theorem C7_simple_smoothing_witness:
  "diff (map Fin [10, 11, 12, 11, 10]) ! 0 = NaN \<and>
   diff (map Fin [10, 11, 12, 11, 10]) ! 3 = Fin (- 1) \<and>
   st_gain (map Fin [10, 11, 12, 11, 10]) ! 3 = Fin 0 \<and>
   st_loss (map Fin [10, 11, 12, 11, 10]) ! 3 = Fin 1 \<and>
   st_avg_gain 3 (map Fin [10, 11, 12, 11, 10]) ! 0 = NaN \<and>
   st_avg_loss 3 (map Fin [10, 11, 12, 11, 10]) ! 0 = NaN \<and>
   st_rsi 3 (map Fin [10, 11, 12, 11, 10]) ! 0 = NaN \<and>
   st_avg_gain 3 (map Fin [10, 11, 12, 11, 10]) ! 3 = Fin (2 / 3) \<and>
   st_avg_loss 3 (map Fin [10, 11, 12, 11, 10]) ! 3 = Fin (1 / 3) \<and>
   st_rsi 3 (map Fin [10, 11, 12, 11, 10]) ! 3 \<noteq> NaN"
proof -
  let ?cl = "[10, 11, 12, 11, 10 :: real]"
  have grid: "list_all on_grid ?cl"
    by (simp add: on_grid_def)
  have g: "(\<Sum>k = 3 + 1 - 3..3. gain_at ?cl k) = 2"
    by (simp add: eval_nat_numeral atLeastAtMostSuc_conv gain_at_def delta_at_def)
  have l: "(\<Sum>k = 3 + 1 - 3..3. loss_at ?cl k) = 1"
    by (simp add: eval_nat_numeral atLeastAtMostSuc_conv loss_at_def delta_at_def)
  have n: "\<not> (\<forall>k\<in>{3 + 1 - 3..3}. gain_at ?cl k = 0)"
    by (simp add: eval_nat_numeral atLeastAtMostSuc_conv gain_at_def delta_at_def)
  have g3: "gain_at ?cl 3 = 0" and l3: "loss_at ?cl 3 = 1"
    by (simp_all add: gain_at_def loss_at_def delta_at_def)
  have p: "(0::nat) < 3" and i0: "0 < length ?cl" and i3: "3 < length ?cl"
    by simp_all
  have e0: "(0::nat) < 3 - 1"
    by simp
  have h3: "(0::nat) < 3 \<and> list_all on_grid ?cl"
    using grid by simp
  have q3: "(3::nat) \<le> 3 \<and> (3::nat) \<le> 1024 \<and> list_all on_grid ?cl"
    using grid by simp
  note w0 = C7_simple_smoothing [OF p i0]
  note w3 = C7_simple_smoothing [OF p i3]
  have a: "diff (map Fin ?cl) ! 0 = NaN"
    using w0 by blast
  from w3 h3 have "diff (map Fin ?cl) ! 3 = Fin (?cl ! 3 - ?cl ! (3 - 1))"
    by blast
  then have b: "diff (map Fin ?cl) ! 3 = Fin (- 1)"
    by simp
  from w3 grid have "st_gain (map Fin ?cl) ! 3 = Fin (gain_at ?cl 3) \<and>
      st_loss (map Fin ?cl) ! 3 = Fin (loss_at ?cl 3)"
    by blast
  then have b': "st_gain (map Fin ?cl) ! 3 = Fin 0 \<and> st_loss (map Fin ?cl) ! 3 = Fin 1"
    unfolding g3 l3 .
  from w0 e0 have c: "st_avg_gain 3 (map Fin ?cl) ! 0 = NaN \<and> st_avg_loss 3 (map Fin ?cl) ! 0 = NaN \<and>
      st_rsi 3 (map Fin ?cl) ! 0 = NaN"
    by blast
  from w3 q3 have d3: "st_avg_gain 3 (map Fin ?cl) ! 3 = Fin ((\<Sum>k = 3 + 1 - 3..3. gain_at ?cl k) / real 3) \<and>
      st_avg_loss 3 (map Fin ?cl) ! 3 = Fin ((\<Sum>k = 3 + 1 - 3..3. loss_at ?cl k) / real 3) \<and>
      (st_rsi 3 (map Fin ?cl) ! 3 = NaN) =
        ((\<forall>k\<in>{3 + 1 - 3..3}. gain_at ?cl k = 0) \<and> (\<forall>k\<in>{3 + 1 - 3..3}. loss_at ?cl k = 0))"
    by blast
  then have d: "st_avg_gain 3 (map Fin ?cl) ! 3 = Fin (2 / 3) \<and>
      st_avg_loss 3 (map Fin ?cl) ! 3 = Fin (1 / 3)"
    unfolding g l by simp
  have e: "st_rsi 3 (map Fin ?cl) ! 3 \<noteq> NaN"
    using d3 n by blast
  show ?thesis
    using a b b' c d e by blast
qed

text \<open>
  The claim as stated has the averages and the RSI undefined below index \<open>p\<close> and defined
  from \<open>p\<close> on.  With \<open>p = 14\<close>: on fourteen rising closes the script's \<open>avg_gain\<close> and
  RSI are defined at index 13 already (\<open>where(delta > 0, 0)\<close> turns the NaN of \<open>delta[0]\<close>
  into a gain of 0, which completes the first window one bar early); and on fifteen equal
  closes the RSI at index 14 is NaN (\<open>0 / 0\<close>).
\<close>

theorem C7_boundary_counterexample:
  "st_avg_gain 14 (map Fin [1, 2, 3, 4, 5, 6, 7, 8, 9, 10, 11, 12, 13, 14]) ! 13 = Fin (13 / 14) \<and>
   st_rsi 14 (map Fin [1, 2, 3, 4, 5, 6, 7, 8, 9, 10, 11, 12, 13, 14]) ! 13 = Fin 100 \<and>
   st_rsi 14 (map Fin [5, 5, 5, 5, 5, 5, 5, 5, 5, 5, 5, 5, 5, 5, 5]) ! 14 = NaN"
proof -
  let ?up = "[1, 2, 3, 4, 5, 6, 7, 8, 9, 10, 11, 12, 13, 14 :: real]"
  let ?flat = "[5, 5, 5, 5, 5, 5, 5, 5, 5, 5, 5, 5, 5, 5, 5 :: real]"
  have g: "(\<Sum>k = Suc 13 - 14..13. gain_at ?up k) = 13"
    by (simp add: eval_nat_numeral atLeastAtMostSuc_conv gain_at_def delta_at_def)
  have l: "(\<Sum>k = Suc 13 - 14..13. loss_at ?up k) = 0"
    by (simp add: eval_nat_numeral atLeastAtMostSuc_conv loss_at_def delta_at_def)
  have fg: "(\<Sum>k = Suc 14 - 14..14. gain_at ?flat k) = 0"
    by (simp add: eval_nat_numeral atLeastAtMostSuc_conv gain_at_def delta_at_def)
  have fl: "(\<Sum>k = Suc 14 - 14..14. loss_at ?flat k) = 0"
    by (simp add: eval_nat_numeral atLeastAtMostSuc_conv loss_at_def delta_at_def)
  have a: "st_avg_gain 14 (map Fin ?up) ! 13 = Fin (13 / 14)"
    using st_avg_gain_Fin_nth [of 13 ?up 14] g by simp
  have b: "st_rsi 14 (map Fin ?up) ! 13 = Fin 100"
    using st_rsi_Fin_nth [of 13 ?up 14] g l by simp
  have c: "st_rsi 14 (map Fin ?flat) ! 14 = NaN"
    using st_rsi_Fin_nth [of 14 ?flat 14] fg fl by simp
  show ?thesis
    using a b c by simp
qed

section \<open>The exponential smoothing rule\<close>

text \<open>
  On finite values the pass of \<open>ewm_loop\<close> is the pass \<open>ewm_fin\<close> on reals; its total
  weights are the sums \<open>ewm_weight\<close>.
\<close>

lemma ewm_loop_Fin:
  assumes "0 \<le> f" and "0 \<le> W"
  shows "ewm_loop f (Fin m) W (Suc n) (map Fin ys) = map Fin (ewm_fin f m W ys)"
  using assms(2)
proof (induction ys arbitrary: m W n)
  case Nil
  then show ?case by simp
next
  case (Cons y ys)
  have pos: "0 < W * f + 1"
    using assms(1) Cons.prems by (simp add: add_nonneg_pos)
  then have ne: "W * f + 1 \<noteq> 0"
    by simp
  have same: "(W * f * z + z) / (W * f + 1) = z" for z
  proof -
    have "W * f * z + z = z * (W * f + 1)"
      by (simp add: algebra_simps)
    then show ?thesis
      using ne by simp
  qed
  have W': "0 \<le> W * f + 1"
    using pos by simp
  show ?case
    using ne same Cons.IH [OF W'] by (simp add: Let_def isna_def)
qed

lemma ewm_mean_NaN_Fin:
  "ewm_mean sp (NaN # Fin y # map Fin ys) =
     NaN # Fin y # ewm_loop (1 - 2 / (real sp + 1)) (Fin y) 1 (Suc 0) (map Fin ys)"
  by (simp add: ewm_mean_def ewm_def Let_def isna_def)

lemma ewm_mean_NaN_Fin':
  assumes "1 \<le> sp"
  shows "ewm_mean sp (NaN # map Fin (y # ys)) =
     NaN # Fin y # map Fin (ewm_fin (1 - 2 / (real sp + 1)) y 1 ys)"
proof -
  have "0 \<le> 1 - 2 / (real sp + 1)"
    using assms by (simp add: field_simps)
  then show ?thesis
    by (simp add: ewm_mean_NaN_Fin ewm_loop_Fin)
qed

lemma ewm_weight_Suc:
  "ewm_weight p (Suc k) = ewm_weight p k * (1 - 2 / (real p + 1)) + 1"
  unfolding ewm_weight_def
  by (simp only: sum.atMost_Suc_shift power_Suc power_0 sum_distrib_right [symmetric])
     (simp add: mult.commute sum_distrib_left)

lemma ewm_weight_0 [simp]: "ewm_weight p 0 = 1"
  by (simp add: ewm_weight_def)

lemma ewm_weight_pos: "1 \<le> p \<Longrightarrow> 0 < ewm_weight p k"
proof (induction k)
  case 0
  then show ?case by simp
next
  case (Suc k)
  have "0 \<le> 1 - 2 / (real p + 1)"
    using Suc.prems by (simp add: field_simps)
  with Suc show ?case
    by (simp add: ewm_weight_Suc add_nonneg_pos)
qed

lemma ewm_fin_length [simp]: "length (ewm_fin f m W ys) = length ys"
  by (induction ys arbitrary: m W) simp_all

lemma ewm_fin_nth:
  assumes "i < length ys"
  shows "ewm_fin (1 - 2 / (real p + 1)) m (ewm_weight p k) ys ! i =
     (ewm_weight p (k + i) * (1 - 2 / (real p + 1)) *
        (if i = 0 then m else ewm_fin (1 - 2 / (real p + 1)) m (ewm_weight p k) ys ! (i - 1))
      + ys ! i) / ewm_weight p (Suc (k + i))"
  using assms
proof (induction ys arbitrary: m k i)
  case Nil
  then show ?case by simp
next
  case (Cons y ys)
  show ?case
  proof (cases i)
    case 0
    then show ?thesis
      by (simp add: ewm_weight_Suc)
  next
    case (Suc j)
    let ?f = "1 - 2 / (real p + 1)"
    let ?m' = "(ewm_weight p k * ?f * m + y) / (ewm_weight p k * ?f + 1)"
    from Suc Cons.prems have j: "j < length ys"
      by simp
    have "ewm_fin ?f m (ewm_weight p k) (y # ys) ! i = ewm_fin ?f ?m' (ewm_weight p (Suc k)) ys ! j"
      using Suc by (simp add: ewm_weight_Suc)
    also have "\<dots> = (ewm_weight p (Suc k + j) * ?f *
        (if j = 0 then ?m' else ewm_fin ?f ?m' (ewm_weight p (Suc k)) ys ! (j - 1))
      + ys ! j) / ewm_weight p (Suc (Suc k + j))"
      by (rule Cons.IH [OF j])
    also have "(if j = 0 then ?m' else ewm_fin ?f ?m' (ewm_weight p (Suc k)) ys ! (j - 1)) =
        ewm_fin ?f m (ewm_weight p k) (y # ys) ! (i - 1)"
      using Suc by (cases j) (simp_all add: ewm_weight_Suc)
    finally show ?thesis
      using Suc by simp
  qed
qed

lemma ewm_fin_zero: "\<forall>y\<in>set ys. y = 0 \<Longrightarrow> i < length ys \<Longrightarrow> ewm_fin f 0 W ys ! i = 0"
proof (induction ys arbitrary: W i)
  case Nil
  then show ?case by simp
next
  case (Cons y ys)
  then show ?case by (cases i) simp_all
qed

lemma ewm_fin_nonneg:
  assumes "0 \<le> f"
  shows "0 \<le> W \<Longrightarrow> 0 \<le> m \<Longrightarrow> \<forall>y\<in>set ys. 0 \<le> y \<Longrightarrow> i < length ys \<Longrightarrow>
    0 \<le> ewm_fin f m W ys ! i"
proof (induction ys arbitrary: m W i)
  case Nil
  then show ?case by simp
next
  case (Cons y ys)
  have W': "0 \<le> W * f + 1"
    using assms Cons.prems(1) by (simp add: add_nonneg_nonneg)
  have y: "0 \<le> y"
    using Cons.prems(3) by simp
  have "0 \<le> W * f * m + y"
    using assms Cons.prems(1,2) y by (simp add: add_nonneg_nonneg)
  then have m': "0 \<le> (W * f * m + y) / (W * f + 1)"
    using W' by simp
  show ?case
  proof (cases i)
    case 0
    then show ?thesis using m' by simp
  next
    case (Suc j)
    then show ?thesis
      using Cons.IH [OF W' m', of j] Cons.prems(3,4) by simp
  qed
qed

lemma ewm_fin_pos:
  assumes "0 < f"
  shows "0 < W \<Longrightarrow> 0 \<le> m \<Longrightarrow> \<forall>y\<in>set ys. 0 \<le> y \<Longrightarrow> i < length ys \<Longrightarrow>
    0 < m \<or> (\<exists>j\<le>i. 0 < ys ! j) \<Longrightarrow> 0 < ewm_fin f m W ys ! i"
proof (induction ys arbitrary: m W i)
  case Nil
  then show ?case by simp
next
  case (Cons y ys)
  have Wf: "0 < W * f"
    using assms Cons.prems(1) by simp
  then have W': "0 < W * f + 1"
    by simp
  have y: "0 \<le> y"
    using Cons.prems(3) by simp
  have num: "0 \<le> W * f * m + y"
    using Wf Cons.prems(2) y by (simp add: add_nonneg_nonneg)
  have m': "0 \<le> (W * f * m + y) / (W * f + 1)"
    using num W' by simp
  have m'pos: "0 < (W * f * m + y) / (W * f + 1)" if "0 < m \<or> 0 < y"
  proof -
    have "0 < W * f * m + y"
      using that
    proof
      assume "0 < m"
      then have "0 < W * f * m" using Wf by simp
      then show ?thesis using y by linarith
    next
      assume "0 < y"
      moreover have "0 \<le> W * f * m" using Wf Cons.prems(2) by simp
      ultimately show ?thesis by linarith
    qed
    then show ?thesis using W' by simp
  qed
  show ?case
  proof (cases i)
    case 0
    with Cons.prems(5) have "0 < m \<or> 0 < y"
      by auto
    then show ?thesis
      using 0 m'pos by simp
  next
    case (Suc k)
    have "0 < (W * f * m + y) / (W * f + 1) \<or> (\<exists>j\<le>k. 0 < ys ! j)"
    proof -
      from Cons.prems(5) consider "0 < m" | j where "j \<le> i" "0 < (y # ys) ! j"
        by blast
      then show ?thesis
      proof cases
        case 1
        then show ?thesis using m'pos by simp
      next
        case 2
        show ?thesis
        proof (cases j)
          case 0
          with 2 have "0 < y" by simp
          then show ?thesis using m'pos by simp
        next
          case (Suc j')
          with 2 \<open>i = Suc k\<close> have "j' \<le> k" "0 < ys ! j'"
            by simp_all
          then show ?thesis by blast
        qed
      qed
    qed
    then show ?thesis
      using Cons.IH [OF W' m', of k] Cons.prems(3,4) Suc by simp
  qed
qed

lemma upt_1_conv: "2 \<le> n \<Longrightarrow> [1..<n] = 1 # [2..<n]"
  by (simp add: upt_conv_Cons numeral_2_eq_2)

lemma ewm_column:
  assumes "1 \<le> p" and "2 \<le> n"
  shows "ewm_mean p (NaN # map Fin (map x [1..<n])) =
     NaN # Fin (x 1) # map Fin (ewm_fin (1 - 2 / (real p + 1)) (x 1) 1 (map x [2..<n]))"
proof -
  have f: "0 \<le> 1 - 2 / (real p + 1)"
    using assms(1) by (simp add: field_simps)
  have eq: "NaN # map Fin (map x [1..<n]) = NaN # Fin (x 1) # map Fin (map x [2..<n])"
    by (simp only: upt_1_conv [OF assms(2)] list.map)
  show ?thesis
    by (simp only: eq ewm_mean_NaN_Fin ewm_loop_Fin [OF f zero_le_one])
qed

text \<open>The finite value of the column at an index \<open>i \<ge> 1\<close>.\<close>

lemma ewm_column_nth:
  assumes "1 \<le> p" and "1 \<le> i" and "i < n"
  shows "ewm_mean p (NaN # map Fin (map x [1..<n])) ! i =
     Fin (if i = 1 then x 1 else ewm_fin (1 - 2 / (real p + 1)) (x 1) 1 (map x [2..<n]) ! (i - 2))"
proof -
  have n: "2 \<le> n"
    using assms by simp
  show ?thesis
  proof (cases "i = 1")
    case True
    show ?thesis
      unfolding ewm_column [OF assms(1) n] True by simp
  next
    case False
    with assms obtain j where i: "i = Suc (Suc j)"
      by (metis One_nat_def Suc_le_D le_antisym not_less_eq_eq)
    have j: "j < length (ewm_fin (1 - 2 / (real p + 1)) (x 1) 1 (map x [2..<n]))"
      using assms i by simp
    show ?thesis
      unfolding ewm_column [OF assms(1) n] i using j by (simp add: numeral_2_eq_2)
  qed
qed

lemma ewm_column_first:
  assumes "1 \<le> p" and "1 < n"
  shows "ewm_mean p (NaN # map Fin (map x [1..<n])) ! 0 = NaN \<and>
         ewm_mean p (NaN # map Fin (map x [1..<n])) ! 1 = Fin (x 1)"
proof -
  have n: "2 \<le> n"
    using assms by simp
  show ?thesis
    unfolding ewm_column [OF assms(1) n] by simp
qed

lemma ewm_column_step:
  assumes "1 \<le> p" and "1 \<le> i" and "i + 1 < n"
  shows "\<exists>a b. ewm_mean p (NaN # map Fin (map x [1..<n])) ! i = Fin a \<and>
           ewm_mean p (NaN # map Fin (map x [1..<n])) ! (i + 1) = Fin b \<and>
           b = (ewm_weight p (i - 1) * (1 - 2 / (real p + 1)) * a + x (i + 1)) / ewm_weight p i"
proof -
  let ?f = "1 - 2 / (real p + 1)"
  let ?ys = "map x [2..<n]"
  let ?a = "if i = 1 then x 1 else ewm_fin ?f (x 1) 1 ?ys ! (i - 2)"
  let ?b = "ewm_fin ?f (x 1) 1 ?ys ! (i - 1)"
  have a: "ewm_mean p (NaN # map Fin (map x [1..<n])) ! i = Fin ?a"
    using assms by (intro ewm_column_nth) simp_all
  have "ewm_mean p (NaN # map Fin (map x [1..<n])) ! (i + 1) =
      Fin (if i + 1 = 1 then x 1 else ewm_fin ?f (x 1) 1 ?ys ! (i + 1 - 2))"
    using assms by (intro ewm_column_nth) simp_all
  then have b: "ewm_mean p (NaN # map Fin (map x [1..<n])) ! (i + 1) = Fin ?b"
    using assms by simp
  have len: "i - 1 < length ?ys"
    using assms by simp
  have "?b = (ewm_weight p (0 + (i - 1)) * ?f *
        (if i - 1 = 0 then x 1 else ewm_fin ?f (x 1) (ewm_weight p 0) ?ys ! (i - 1 - 1))
      + ?ys ! (i - 1)) / ewm_weight p (Suc (0 + (i - 1)))"
    using ewm_fin_nth [OF len, of p "x 1" 0] by simp
  also have "(if i - 1 = 0 then x 1 else ewm_fin ?f (x 1) (ewm_weight p 0) ?ys ! (i - 1 - 1)) = ?a"
    using assms by (auto simp add: numeral_2_eq_2)
  also have "?ys ! (i - 1) = x (i + 1)"
    using assms by simp
  also have "Suc (0 + (i - 1)) = i"
    using assms by simp
  finally have "?b = (ewm_weight p (i - 1) * ?f * ?a + x (i + 1)) / ewm_weight p i"
    by simp
  with a b show ?thesis
    by blast
qed

lemma ewm_column_sign:
  assumes "1 \<le> p" and "1 \<le> i" and "i < n" and "\<And>k. 0 \<le> x k"
  shows "\<exists>a. ewm_mean p (NaN # map Fin (map x [1..<n])) ! i = Fin a \<and> 0 \<le> a \<and>
           ((\<forall>k\<in>{1..i}. x k = 0) \<longrightarrow> a = 0) \<and>
           (2 \<le> p \<longrightarrow> (\<exists>k\<in>{1..i}. 0 < x k) \<longrightarrow> 0 < a)"
proof -
  let ?f = "1 - 2 / (real p + 1)"
  let ?ys = "map x [2..<n]"
  let ?a = "if i = 1 then x 1 else ewm_fin ?f (x 1) 1 ?ys ! (i - 2)"
  have a: "ewm_mean p (NaN # map Fin (map x [1..<n])) ! i = Fin ?a"
    using assms by (intro ewm_column_nth) simp_all
  have f: "0 \<le> ?f"
    using assms(1) by (simp add: field_simps)
  have ys: "\<forall>y\<in>set ?ys. 0 \<le> y"
    using assms(4) by simp
  have nonneg: "0 \<le> ?a"
  proof (cases "i = 1")
    case True
    then show ?thesis using assms(4) by simp
  next
    case False
    then have "i - 2 < length ?ys"
      using assms by simp
    from ewm_fin_nonneg [OF f zero_le_one assms(4) ys this]
    show ?thesis using False by simp
  qed
  have zero: "?a = 0" if z: "\<forall>k\<in>{1..i}. x k = 0"
  proof (cases "i = 1")
    case True
    then show ?thesis using z by simp
  next
    case False
    then have len: "i - 2 < length ?ys"
      using assms by simp
    have x1: "x 1 = 0"
      using z assms by simp
    have "ewm_fin ?f 0 1 (take (i - 1) ?ys) ! (i - 2) = 0"
    proof (rule ewm_fin_zero)
      show "\<forall>y\<in>set (take (i - 1) ?ys). y = 0"
      proof
        fix y assume "y \<in> set (take (i - 1) ?ys)"
        then obtain j where "j < i - 1" "j < length ?ys" "y = ?ys ! j"
          by (auto simp add: in_set_conv_nth)
        then show "y = 0"
          using z assms by simp
      qed
      show "i - 2 < length (take (i - 1) ?ys)"
        using len False assms by simp
    qed
    moreover have "ewm_fin ?f 0 1 (take (i - 1) ?ys) ! (i - 2) = ewm_fin ?f 0 1 ?ys ! (i - 2)"
    proof -
      have "ewm_fin g m W (take k zs) ! j = ewm_fin g m W zs ! j" if "j < k" "j < length zs"
        for g m W k j and zs :: "real list"
        using that
      proof (induction zs arbitrary: m W k j)
        case Nil
        then show ?case by simp
      next
        case (Cons z zs)
        then show ?case
          by (cases k; cases j) simp_all
      qed
      then show ?thesis
        using len False assms by simp
    qed
    ultimately show ?thesis
      using False x1 by simp
  qed
  have pos: "0 < ?a" if p2: "2 \<le> p" and ex: "\<exists>k\<in>{1..i}. 0 < x k"
  proof (cases "i = 1")
    case True
    then show ?thesis using ex by auto
  next
    case False
    then have len: "i - 2 < length ?ys"
      using assms by simp
    have fpos: "0 < ?f"
      using p2 by (simp add: field_simps)
    from ex obtain k where k: "1 \<le> k" "k \<le> i" "0 < x k"
      by auto
    have "0 < x 1 \<or> (\<exists>j\<le>i - 2. 0 < ?ys ! j)"
    proof (cases "k = 1")
      case True
      then show ?thesis using k by simp
    next
      case False
      then have kk: "2 + (k - 2) = k"
        using k by linarith
      have "k - 2 < length ?ys"
        using False k assms by simp
      then have "?ys ! (k - 2) = x (2 + (k - 2))"
        by (simp only: nth_map nth_upt length_map length_upt)
      then have "k - 2 \<le> i - 2" "?ys ! (k - 2) = x k"
        using k kk by simp_all
      then show ?thesis using k by auto
    qed
    from ewm_fin_pos [OF fpos zero_less_one assms(4) ys len this]
    show ?thesis using False by simp
  qed
  show ?thesis
    using a nonneg zero pos by blast
qed

lemma gd_avg_gain_Fin:
  "cl \<noteq> [] \<Longrightarrow> gd_avg_gain p (map Fin cl) =
     ewm_mean p (NaN # map Fin (map (gain_at cl) [1..<length cl]))"
  by (simp add: gd_avg_gain_def gd_gain_Fin)

lemma gd_avg_loss_Fin:
  "cl \<noteq> [] \<Longrightarrow> gd_avg_loss p (map Fin cl) =
     ewm_mean p (NaN # map Fin (map (loss_at cl) [1..<length cl]))"
  by (simp add: gd_avg_loss_def gd_loss_Fin)

lemma blend_form:
  fixes W :: real
  assumes "W' = W * f + 1" and "W' \<noteq> 0"
  shows "(W * f * a + x) / W' = (1 - 1 / W') * a + (1 / W') * x"
proof -
  have "W * f = W' - 1"
    using assms(1) by simp
  then have "(W * f * a + x) / W' = ((W' - 1) * a + x) / W'"
    by simp
  also have "\<dots> = (1 - 1 / W') * a + (1 / W') * x"
    using assms(2) by (simp add: field_simps)
  finally show ?thesis .
qed

text \<open>
  Claim C6, as amended.  In gold\_dashboard.py (exponentially weighted mean, span \<open>p\<close>; the
  script passes 14), on finite closes, for the smoothed gain and identically the smoothed
  loss: the value at index 0 is NaN; the first value, at index 1, is the first available
  observation \<open>gain[1]\<close>; and each later value is a weighted blend of the previous average
  and the new observation, \<open>avg[i+1] = (1 - a) * avg[i] + a * x[i+1]\<close>, whose factor
  \<open>a = 1 / (1 + (1 - alpha) + ... + (1 - alpha) ^ i)\<close>, with \<open>alpha = 2 / (p + 1)\<close>, changes
  with the index (pandas' default \<open>adjust=True\<close>).
\<close>

theorem C6_exponential_smoothing:
  assumes "1 \<le> p" and "1 \<le> i" and "i + 1 < length cl"
  shows "gd_avg_gain p (map Fin cl) ! 0 = NaN \<and>
         gd_avg_gain p (map Fin cl) ! 1 = Fin (gain_at cl 1) \<and>
         gd_avg_loss p (map Fin cl) ! 0 = NaN \<and>
         gd_avg_loss p (map Fin cl) ! 1 = Fin (loss_at cl 1) \<and>
         (\<exists>a b. gd_avg_gain p (map Fin cl) ! i = Fin a \<and>
                gd_avg_gain p (map Fin cl) ! (i + 1) = Fin b \<and>
                b = (1 - 1 / ewm_weight p i) * a + (1 / ewm_weight p i) * gain_at cl (i + 1)) \<and>
         (\<exists>a b. gd_avg_loss p (map Fin cl) ! i = Fin a \<and>
                gd_avg_loss p (map Fin cl) ! (i + 1) = Fin b \<and>
                b = (1 - 1 / ewm_weight p i) * a + (1 / ewm_weight p i) * loss_at cl (i + 1))"
proof -
  have ne: "cl \<noteq> []" and n: "1 < length cl"
    using assms by auto
  have W: "ewm_weight p i = ewm_weight p (i - 1) * (1 - 2 / (real p + 1)) + 1"
    using assms(2) ewm_weight_Suc [of p "i - 1"] by simp
  have W0: "ewm_weight p i \<noteq> 0"
    using ewm_weight_pos [OF assms(1), of i] by simp
  have step: "\<exists>a b. ewm_mean p (NaN # map Fin (map x [1..<length cl])) ! i = Fin a \<and>
           ewm_mean p (NaN # map Fin (map x [1..<length cl])) ! (i + 1) = Fin b \<and>
           b = (1 - 1 / ewm_weight p i) * a + (1 / ewm_weight p i) * x (i + 1)" for x
    using ewm_column_step [OF assms, of x] by (simp only: blend_form [OF W W0])
  show ?thesis
    using ewm_column_first [OF assms(1) n, of "gain_at cl"]
      ewm_column_first [OF assms(1) n, of "loss_at cl"]
      step [of "gain_at cl"] step [of "loss_at cl"]
    by (simp only: gd_avg_gain_Fin [OF ne] gd_avg_loss_Fin [OF ne])
qed

theorem C6_exponential_smoothing_witness:
  "gd_avg_gain 14 (map Fin [1, 2, 2]) ! 0 = NaN \<and>
   gd_avg_gain 14 (map Fin [1, 2, 2]) ! 1 = Fin (gain_at [1, 2, 2] 1) \<and>
   (\<exists>a b. gd_avg_gain 14 (map Fin [1, 2, 2]) ! 1 = Fin a \<and>
          gd_avg_gain 14 (map Fin [1, 2, 2]) ! (1 + 1) = Fin b \<and>
          b = (1 - 1 / ewm_weight 14 1) * a + (1 / ewm_weight 14 1) * gain_at [1, 2, 2] (1 + 1))"
proof -
  have p: "1 \<le> (14::nat)" and i: "1 \<le> (1::nat)" and n: "1 + 1 < length [1, 2, 2 :: real]"
    by simp_all
  from C6_exponential_smoothing [OF p i n] show ?thesis
    by blast
qed

text \<open>
  The claim as stated has the constant factor \<open>alpha\<close>.  On the closes 1, 2, 2 the gains
  are NaN, 1, 0 and the script's smoothed gain at index 2 is \<open>13 / 28\<close>, where the
  recursion with \<open>alpha = 2 / 15\<close> gives \<open>13 / 15\<close>.
\<close>

theorem C6_constant_alpha_counterexample:
  "gd_gain (map Fin [1, 2, 2]) ! 2 = Fin 0 \<and>
   gd_avg_gain 14 (map Fin [1, 2, 2]) ! 1 = Fin 1 \<and>
   gd_avg_gain 14 (map Fin [1, 2, 2]) ! 2 = Fin (13 / 28) \<and>
   (1 - 2 / (14 + 1)) * 1 + 2 / (14 + 1) * 0 \<noteq> (13 / 28 :: real)"
  by (simp add: gd_avg_gain_def gd_gain_def diff_def shift1_def clip_lower_def fsub_def
      isna_def flt_def ewm_mean_def ewm_def Let_def)

section \<open>Saturation and floor of the RSI\<close>

lemma gain_at_eq_0: "gain_at cl k = 0 \<longleftrightarrow> cl ! k \<le> cl ! (k - 1)"
  by (simp add: gain_at_def delta_at_def max_def)

lemma loss_at_eq_0: "loss_at cl k = 0 \<longleftrightarrow> cl ! (k - 1) \<le> cl ! k"
  by (simp add: loss_at_def delta_at_def max_def)

lemma gain_at_pos: "0 < gain_at cl k \<longleftrightarrow> cl ! (k - 1) < cl ! k"
  by (simp add: gain_at_def delta_at_def max_def)

lemma loss_at_pos: "0 < loss_at cl k \<longleftrightarrow> cl ! k < cl ! (k - 1)"
  by (simp add: loss_at_def delta_at_def max_def)

lemma sum_pos_if_one:
  fixes g :: "nat \<Rightarrow> real"
  assumes "\<And>k. 0 \<le> g k" and "k \<in> {a..b}" and "0 < g k"
  shows "0 < (\<Sum>j = a..b. g j)"
proof -
  have "\<exists>j\<in>{a..b}. g j \<noteq> 0"
    using assms(2,3) by (intro bexI [of _ k]) simp_all
  then have "(\<Sum>j = a..b. g j) \<noteq> 0"
    using assms(1) by (simp add: sum_nonneg_eq_0_iff)
  moreover have "0 \<le> (\<Sum>j = a..b. g j)"
    using assms(1) by (simp add: sum_nonneg)
  ultimately show ?thesis
    by simp
qed

lemma gd_rsi_Fin_nth:
  assumes "1 \<le> p" and "1 \<le> i" and "i < length cl"
  shows "\<exists>a l. gd_avg_gain p (map Fin cl) ! i = Fin a \<and> gd_avg_loss p (map Fin cl) ! i = Fin l \<and>
     0 \<le> a \<and> 0 \<le> l \<and>
     ((\<forall>k\<in>{1..i}. gain_at cl k = 0) \<longrightarrow> a = 0) \<and>
     ((\<forall>k\<in>{1..i}. loss_at cl k = 0) \<longrightarrow> l = 0) \<and>
     (2 \<le> p \<longrightarrow> (\<exists>k\<in>{1..i}. 0 < gain_at cl k) \<longrightarrow> 0 < a) \<and>
     (2 \<le> p \<longrightarrow> (\<exists>k\<in>{1..i}. 0 < loss_at cl k) \<longrightarrow> 0 < l) \<and>
     gd_rsi p (map Fin cl) ! i =
       (if l = 0 then (if a = 0 then NaN else Fin 100) else Fin (100 - 100 / (1 + a / l)))"
proof -
  have ne: "cl \<noteq> []"
    using assms by auto
  from ewm_column_sign [OF assms, of "gain_at cl"]
  obtain a where a: "gd_avg_gain p (map Fin cl) ! i = Fin a" "0 \<le> a"
      "(\<forall>k\<in>{1..i}. gain_at cl k = 0) \<longrightarrow> a = 0"
      "2 \<le> p \<longrightarrow> (\<exists>k\<in>{1..i}. 0 < gain_at cl k) \<longrightarrow> 0 < a"
    unfolding gd_avg_gain_Fin [OF ne] using gain_at_nonneg by blast
  from ewm_column_sign [OF assms, of "loss_at cl"]
  obtain l where l: "gd_avg_loss p (map Fin cl) ! i = Fin l" "0 \<le> l"
      "(\<forall>k\<in>{1..i}. loss_at cl k = 0) \<longrightarrow> l = 0"
      "2 \<le> p \<longrightarrow> (\<exists>k\<in>{1..i}. 0 < loss_at cl k) \<longrightarrow> 0 < l"
    unfolding gd_avg_loss_Fin [OF ne] using loss_at_nonneg by blast
  have "gd_rsi p (map Fin cl) ! i =
      fsub (Fin 100) (fdiv (Fin 100) (fadd (Fin 1) (fdiv (Fin a) (Fin l))))"
    using assms a(1) l(1) by (simp add: gd_rsi_def rsi_nth)
  also have "\<dots> = (if l = 0 then (if a = 0 then NaN else Fin 100) else Fin (100 - 100 / (1 + a / l)))"
    by (rule rsi_step_Fin [OF a(2) l(2)])
  finally show ?thesis
    using a l by blast
qed

lemma rsi_zero_loss:
  assumes "i < length ag" and "i < length al" and "al ! i = Fin 0"
  shows "(\<forall>g. ag ! i = Fin g \<and> 0 < g \<longrightarrow> rsi_of (rs_of ag al) ! i = Fin 100) \<and>
         (ag ! i = Fin 0 \<longrightarrow> rsi_of (rs_of ag al) ! i = NaN)"
  using assms by (auto simp add: rsi_nth fsub_def)

lemma st_window_rsi:
  assumes "i < length cl" and "0 < p" and "p \<le> i"
  shows "st_avg_gain p (map Fin cl) ! i = Fin ((\<Sum>k = Suc i - p..i. gain_at cl k) / real p) \<and>
         st_avg_loss p (map Fin cl) ! i = Fin ((\<Sum>k = Suc i - p..i. loss_at cl k) / real p) \<and>
         (\<forall>k\<in>{Suc i - p..i}. st_gain (map Fin cl) ! k = Fin (gain_at cl k) \<and>
                              st_loss (map Fin cl) ! k = Fin (loss_at cl k))"
  using assms by (simp add: st_avg_gain_Fin_nth st_avg_loss_Fin_nth st_gain_Fin_nth st_loss_Fin_nth)

lemma gd_history_columns:
  assumes "i < length cl"
  shows "\<forall>k\<in>{1..i}. gd_gain (map Fin cl) ! k = Fin (gain_at cl k) \<and>
                     gd_loss (map Fin cl) ! k = Fin (loss_at cl k)"
  using assms by (simp add: gd_gain_Fin_nth gd_loss_Fin_nth)

text \<open>
  Claim C2, as amended.  At an index where \<open>avg_loss\<close> is 0: if \<open>avg_gain\<close> is positive
  the RSI is 100 (the quotient \<open>rs\<close> is infinite and \<open>100 / (1 + rs)\<close> is 0; nothing is
  clamped), and if \<open>avg_gain\<close> is 0 as well the RSI is NaN; the RSI column of either script
  is this function of its two averages.  In particular, on closes on which float64 is
  exact: in gold\_dashboard\_streamlit.py (simple rule, lookback \<open>p\<close> of at most 1024,
  \<open>i \<ge> p\<close>) a Close sequence that is non-decreasing over the lookback window ending at
  \<open>i\<close>, with at least one strict increase in it, has loss 0 throughout that window,
  \<open>avg_loss[i] = 0\<close> and RSI 100 at \<open>i\<close>; in gold\_dashboard.py (exponential rule, span 14,
  \<open>1 \<le> i \<le> 4096\<close>) the same holds for a Close sequence that is non-decreasing from the
  first bar up to \<open>i\<close>, with at least one strict increase.
\<close>

theorem C2_rsi_saturation:
  assumes "i < length cl"
  shows "(j < length ag \<and> j < length al \<and> al ! j = Fin 0 \<and> ag ! j = Fin g \<and> 0 < g \<longrightarrow>
            rsi_of (rs_of ag al) ! j = Fin 100) \<and>
         (j < length ag \<and> j < length al \<and> al ! j = Fin 0 \<and> ag ! j = Fin 0 \<longrightarrow>
            rsi_of (rs_of ag al) ! j = NaN) \<and>
         gd_rsi p (map Fin cl) =
           rsi_of (rs_of (gd_avg_gain p (map Fin cl)) (gd_avg_loss p (map Fin cl))) \<and>
         st_rsi p (map Fin cl) =
           rsi_of (rs_of (st_avg_gain p (map Fin cl)) (st_avg_loss p (map Fin cl))) \<and>
         (0 < p \<and> p \<le> 1024 \<and> p \<le> i \<and> list_all on_grid cl \<and>
               (\<forall>k\<in>{i + 1 - p..i}. cl ! (k - 1) \<le> cl ! k) \<and>
               (\<exists>k\<in>{i + 1 - p..i}. cl ! (k - 1) < cl ! k) \<longrightarrow>
            (\<forall>k\<in>{i + 1 - p..i}. st_loss (map Fin cl) ! k = Fin 0) \<and>
            st_avg_loss p (map Fin cl) ! i = Fin 0 \<and>
            st_rsi p (map Fin cl) ! i = Fin 100) \<and>
         (1 \<le> i \<and> i \<le> 4096 \<and> list_all on_grid cl \<and>
               (\<forall>k\<in>{1..i}. cl ! (k - 1) \<le> cl ! k) \<and>
               (\<exists>k\<in>{1..i}. cl ! (k - 1) < cl ! k) \<longrightarrow>
            (\<forall>k\<in>{1..i}. gd_loss (map Fin cl) ! k = Fin 0) \<and>
            gd_avg_loss 14 (map Fin cl) ! i = Fin 0 \<and>
            gd_rsi 14 (map Fin cl) ! i = Fin 100)"
proof -
  have pos: "rsi_of (rs_of ag al) ! j = Fin 100"
    if "j < length ag" "j < length al" "al ! j = Fin 0" "ag ! j = Fin g" "0 < g"
    using rsi_zero_loss [OF that(1,2,3)] that(4,5) by blast
  have zero: "rsi_of (rs_of ag al) ! j = NaN"
    if "j < length ag" "j < length al" "al ! j = Fin 0" "ag ! j = Fin 0"
    using rsi_zero_loss [OF that(1,2,3)] that(4) by blast
  have gdd: "gd_rsi p (map Fin cl) =
           rsi_of (rs_of (gd_avg_gain p (map Fin cl)) (gd_avg_loss p (map Fin cl)))"
    by (simp only: gd_rsi_def)
  have std: "st_rsi p (map Fin cl) =
           rsi_of (rs_of (st_avg_gain p (map Fin cl)) (st_avg_loss p (map Fin cl)))"
    by (simp only: st_rsi_def)
  have win: "(\<forall>k\<in>{i + 1 - p..i}. st_loss (map Fin cl) ! k = Fin 0) \<and>
            st_avg_loss p (map Fin cl) ! i = Fin 0 \<and>
            st_rsi p (map Fin cl) ! i = Fin 100"
    if "0 < p" "p \<le> i" "\<forall>k\<in>{i + 1 - p..i}. cl ! (k - 1) \<le> cl ! k"
      "\<exists>k\<in>{i + 1 - p..i}. cl ! (k - 1) < cl ! k"
  proof -
    have l0: "\<forall>k\<in>{Suc i - p..i}. loss_at cl k = 0"
      using that(3) by (simp add: loss_at_eq_0)
    then have L: "(\<Sum>k = Suc i - p..i. loss_at cl k) = 0"
      by simp
    from that(4) obtain k where "k \<in> {Suc i - p..i}" "0 < gain_at cl k"
      by (auto simp add: gain_at_pos)
    then have "0 < (\<Sum>k = Suc i - p..i. gain_at cl k)"
      by (intro sum_pos_if_one [of "gain_at cl" k]) simp_all
    then have r: "st_rsi p (map Fin cl) ! i = Fin 100"
      using that(1,2) L by (simp add: st_rsi_Fin_nth [OF assms])
    from st_window_rsi [OF assms that(1,2)] l0 L
    have "(\<forall>k\<in>{Suc i - p..i}. st_loss (map Fin cl) ! k = Fin 0) \<and>
        st_avg_loss p (map Fin cl) ! i = Fin 0"
      by simp
    then show ?thesis
      using r by simp
  qed
  have hist: "(\<forall>k\<in>{1..i}. gd_loss (map Fin cl) ! k = Fin 0) \<and>
            gd_avg_loss 14 (map Fin cl) ! i = Fin 0 \<and>
            gd_rsi 14 (map Fin cl) ! i = Fin 100"
    if "1 \<le> i" "\<forall>k\<in>{1..i}. cl ! (k - 1) \<le> cl ! k" "\<exists>k\<in>{1..i}. cl ! (k - 1) < cl ! k"
  proof -
    have p: "1 \<le> (14::nat)" and p2: "2 \<le> (14::nat)"
      by simp_all
    have l0: "\<forall>k\<in>{1..i}. loss_at cl k = 0"
      using that(2) by (simp add: loss_at_eq_0)
    have g1: "\<exists>k\<in>{1..i}. 0 < gain_at cl k"
      using that(3) by (simp add: gain_at_pos)
    from gd_rsi_Fin_nth [OF p that(1) assms]
    obtain a l where al: "gd_avg_loss 14 (map Fin cl) ! i = Fin l"
        "(\<forall>k\<in>{1..i}. loss_at cl k = 0) \<longrightarrow> l = 0"
        "2 \<le> (14::nat) \<longrightarrow> (\<exists>k\<in>{1..i}. 0 < gain_at cl k) \<longrightarrow> 0 < a"
        "gd_rsi 14 (map Fin cl) ! i =
           (if l = 0 then (if a = 0 then NaN else Fin 100) else Fin (100 - 100 / (1 + a / l)))"
      by blast
    from al(2) l0 have lz: "l = 0"
      by blast
    from al(3) p2 g1 have ap: "0 < a"
      by blast
    have r: "gd_avg_loss 14 (map Fin cl) ! i = Fin 0 \<and> gd_rsi 14 (map Fin cl) ! i = Fin 100"
      using al(1,4) lz ap by simp
    from gd_history_columns [OF assms] l0
    have "\<forall>k\<in>{1..i}. gd_loss (map Fin cl) ! k = Fin 0"
      by simp
    then show ?thesis
      using r by simp
  qed
  show ?thesis
    using pos zero gdd std win hist by blast
qed

text \<open>
  A positive and a zero average gain over a zero average loss; four closes with the
  lookback 3 under the simple rule; three closes under the exponential rule.
\<close>

theorem C2_rsi_saturation_witness:
  "rsi_of (rs_of [Fin 3] [Fin 0]) ! 0 = Fin 100 \<and>
   rsi_of (rs_of [Fin 0] [Fin 0]) ! 0 = NaN \<and>
   st_loss (map Fin [10, 11, 11, 13]) ! 3 = Fin 0 \<and>
   st_avg_loss 3 (map Fin [10, 11, 11, 13]) ! 3 = Fin 0 \<and>
   st_rsi 3 (map Fin [10, 11, 11, 13]) ! 3 = Fin 100 \<and>
   gd_loss (map Fin [10, 11, 11]) ! 2 = Fin 0 \<and>
   gd_avg_loss 14 (map Fin [10, 11, 11]) ! 2 = Fin 0 \<and>
   gd_rsi 14 (map Fin [10, 11, 11]) ! 2 = Fin 100"
proof -
  let ?cl = "[10, 11, 11, 13 :: real]"
  let ?cm = "[10, 11, 11 :: real]"
  have n: "3 < length ?cl" and m: "2 < length ?cm"
    by simp_all
  have pa: "(0::nat) < length [Fin 3] \<and> (0::nat) < length [Fin 0] \<and> [Fin 0] ! 0 = Fin 0 \<and>
      [Fin 3] ! 0 = Fin 3 \<and> (0::real) < 3"
    by simp
  from C2_rsi_saturation [OF n, of 0 "[Fin 3]" "[Fin 0]" 3] pa
  have a: "rsi_of (rs_of [Fin 3] [Fin 0]) ! 0 = Fin 100"
    by blast
  have za: "(0::nat) < length [Fin 0] \<and> (0::nat) < length [Fin 0] \<and> [Fin 0] ! 0 = Fin 0 \<and>
      [Fin 0] ! 0 = Fin 0"
    by simp
  from C2_rsi_saturation [OF n, of 0 "[Fin 0]" "[Fin 0]"] za
  have b: "rsi_of (rs_of [Fin 0] [Fin 0]) ! 0 = NaN"
    by blast
  have w: "(0::nat) < 3 \<and> (3::nat) \<le> 1024 \<and> (3::nat) \<le> 3 \<and> list_all on_grid ?cl \<and>
      (\<forall>k\<in>{3 + 1 - 3..3}. ?cl ! (k - 1) \<le> ?cl ! k) \<and>
      (\<exists>k\<in>{3 + 1 - 3..3}. ?cl ! (k - 1) < ?cl ! k)"
    by (simp add: eval_nat_numeral atLeastAtMostSuc_conv on_grid_def)
  from C2_rsi_saturation [OF n, of _ _ _ _ 3] w
  have c0: "(\<forall>k\<in>{3 + 1 - 3..3}. st_loss (map Fin ?cl) ! k = Fin 0) \<and>
      st_avg_loss 3 (map Fin ?cl) ! 3 = Fin 0 \<and> st_rsi 3 (map Fin ?cl) ! 3 = Fin 100"
    by blast
  have "(3::nat) \<in> {3 + 1 - 3..3}"
    by simp
  with c0 have c: "st_loss (map Fin ?cl) ! 3 = Fin 0 \<and>
      st_avg_loss 3 (map Fin ?cl) ! 3 = Fin 0 \<and> st_rsi 3 (map Fin ?cl) ! 3 = Fin 100"
    by blast
  have h: "(1::nat) \<le> 2 \<and> (2::nat) \<le> 4096 \<and> list_all on_grid ?cm \<and>
      (\<forall>k\<in>{1..2}. ?cm ! (k - 1) \<le> ?cm ! k) \<and>
      (\<exists>k\<in>{1..2}. ?cm ! (k - 1) < ?cm ! k)"
    by (simp add: eval_nat_numeral atLeastAtMostSuc_conv on_grid_def)
  from C2_rsi_saturation [OF m] h
  have d0: "(\<forall>k\<in>{1..2}. gd_loss (map Fin ?cm) ! k = Fin 0) \<and>
      gd_avg_loss 14 (map Fin ?cm) ! 2 = Fin 0 \<and> gd_rsi 14 (map Fin ?cm) ! 2 = Fin 100"
    by blast
  have "(2::nat) \<in> {1..2}"
    by simp
  with d0 have d: "gd_loss (map Fin ?cm) ! 2 = Fin 0 \<and>
      gd_avg_loss 14 (map Fin ?cm) ! 2 = Fin 0 \<and> gd_rsi 14 (map Fin ?cm) ! 2 = Fin 100"
    by blast
  show ?thesis
    using a b c d by blast
qed

text \<open>
  The claim as stated gives 100 whenever \<open>avg_loss\<close> is 0.  On equal closes both averages
  are 0 and the RSI of either script is NaN.  And under the exponential rule a loss before
  the lookback window keeps a positive weight: after the fall from 20 to 1 the closes rise
  for fourteen bars, and the RSI at index 15 is not 100.
\<close>

theorem C2_flat_counterexample:
  "gd_avg_loss 14 (map Fin [5, 5]) ! 1 = Fin 0 \<and>
   gd_rsi 14 (map Fin [5, 5]) ! 1 = NaN \<and>
   st_avg_loss 14 (map Fin [5, 5, 5, 5, 5, 5, 5, 5, 5, 5, 5, 5, 5, 5, 5]) ! 14 = Fin 0 \<and>
   st_rsi 14 (map Fin [5, 5, 5, 5, 5, 5, 5, 5, 5, 5, 5, 5, 5, 5, 5]) ! 14 = NaN \<and>
   gd_rsi 14 (map Fin [20, 1, 2, 3, 4, 5, 6, 7, 8, 9, 10, 11, 12, 13, 14, 15]) ! 15 \<noteq> Fin 100"
proof -
  have a: "gd_avg_loss 14 (map Fin [5, 5]) ! 1 = Fin 0 \<and> gd_rsi 14 (map Fin [5, 5]) ! 1 = NaN"
    by (simp add: gd_rsi_def rs_of_def rsi_of_def gd_avg_gain_def gd_avg_loss_def gd_gain_def
        gd_loss_def diff_def shift1_def clip_lower_def clip_upper_def neg_def fsub_def isna_def
        flt_def ewm_mean_def ewm_def Let_def)
  let ?flat = "[5, 5, 5, 5, 5, 5, 5, 5, 5, 5, 5, 5, 5, 5, 5 :: real]"
  have fg: "(\<Sum>k = Suc 14 - 14..14. gain_at ?flat k) = 0"
    by (simp add: eval_nat_numeral atLeastAtMostSuc_conv gain_at_def delta_at_def)
  have fl: "(\<Sum>k = Suc 14 - 14..14. loss_at ?flat k) = 0"
    by (simp add: eval_nat_numeral atLeastAtMostSuc_conv loss_at_def delta_at_def)
  have b: "st_avg_loss 14 (map Fin ?flat) ! 14 = Fin 0"
    using st_avg_loss_Fin_nth [of 14 ?flat 14] fl by simp
  have c: "st_rsi 14 (map Fin ?flat) ! 14 = NaN"
    using st_rsi_Fin_nth [of 14 ?flat 14] fg fl by simp
  let ?cl = "[20, 1, 2, 3, 4, 5, 6, 7, 8, 9, 10, 11, 12, 13, 14, 15 :: real]"
  have p: "1 \<le> (14::nat)" and i: "1 \<le> (15::nat)" and n: "15 < length ?cl"
    by simp_all
  have ex: "\<exists>k\<in>{1..15}. 0 < loss_at ?cl k"
    by (intro bexI [of _ 1]) (simp_all add: loss_at_def delta_at_def)
  have p2: "2 \<le> (14::nat)"
    by simp
  from gd_rsi_Fin_nth [OF p i n]
  obtain g l where g: "0 \<le> g"
      and l: "2 \<le> (14::nat) \<longrightarrow> (\<exists>k\<in>{1..15}. 0 < loss_at ?cl k) \<longrightarrow> 0 < l"
      and r: "gd_rsi 14 (map Fin ?cl) ! 15 =
        (if l = 0 then (if g = 0 then NaN else Fin 100) else Fin (100 - 100 / (1 + g / l)))"
    by blast
  from l p2 ex have lpos: "0 < l"
    by blast
  note gl = g lpos r
  have "0 < 100 / (1 + g / l)"
    using gl(1,2) by (simp add: add_pos_nonneg)
  then have d: "gd_rsi 14 (map Fin ?cl) ! 15 \<noteq> Fin 100"
    using gl by simp
  show ?thesis
    using a b c d by simp
qed

text \<open>
  Claim C8, as amended.  On closes on which float64 is exact: in
  gold\_dashboard\_streamlit.py (simple rule, lookback \<open>p\<close> of at most 1024, \<open>i \<ge> p\<close>) a
  Close sequence that is non-increasing over the lookback window ending at \<open>i\<close>, with at
  least one strict decrease in it, has gain 0 throughout that window, \<open>avg_gain[i] = 0\<close>
  and RSI 0 at \<open>i\<close>; in gold\_dashboard.py (exponential rule, span 14, \<open>1 \<le> i \<le> 4096\<close>)
  the same holds for a Close sequence that is non-increasing from the first bar up to
  \<open>i\<close>, with at least one strict decrease.  Without a strict decrease the RSI is NaN:
  in gold\_dashboard\_streamlit.py when the closes are equal over the lookback window
  ending at \<open>i\<close>, in gold\_dashboard.py when they are equal from the first bar up to \<open>i\<close>.
\<close>

theorem C8_rsi_floor:
  assumes "i < length cl"
  shows "(0 < p \<and> p \<le> 1024 \<and> p \<le> i \<and> list_all on_grid cl \<and>
            (\<forall>k\<in>{i + 1 - p..i}. cl ! k \<le> cl ! (k - 1)) \<and>
            (\<exists>k\<in>{i + 1 - p..i}. cl ! k < cl ! (k - 1)) \<longrightarrow>
          (\<forall>k\<in>{i + 1 - p..i}. st_gain (map Fin cl) ! k = Fin 0) \<and>
          st_avg_gain p (map Fin cl) ! i = Fin 0 \<and>
          st_rsi p (map Fin cl) ! i = Fin 0) \<and>
         (1 \<le> i \<and> i \<le> 4096 \<and> list_all on_grid cl \<and>
            (\<forall>k\<in>{1..i}. cl ! k \<le> cl ! (k - 1)) \<and>
            (\<exists>k\<in>{1..i}. cl ! k < cl ! (k - 1)) \<longrightarrow>
          (\<forall>k\<in>{1..i}. gd_gain (map Fin cl) ! k = Fin 0) \<and>
          gd_avg_gain 14 (map Fin cl) ! i = Fin 0 \<and>
          gd_rsi 14 (map Fin cl) ! i = Fin 0) \<and>
         (0 < p \<and> p \<le> 1024 \<and> p \<le> i \<and> list_all on_grid cl \<and>
            (\<forall>k\<in>{i + 1 - p..i}. cl ! k = cl ! (k - 1)) \<longrightarrow>
          st_rsi p (map Fin cl) ! i = NaN) \<and>
         (1 \<le> i \<and> i \<le> 4096 \<and> list_all on_grid cl \<and>
            (\<forall>k\<in>{1..i}. cl ! k = cl ! (k - 1)) \<longrightarrow>
          gd_rsi 14 (map Fin cl) ! i = NaN)"
proof -
  have win: "(\<forall>k\<in>{i + 1 - p..i}. st_gain (map Fin cl) ! k = Fin 0) \<and>
          st_avg_gain p (map Fin cl) ! i = Fin 0 \<and>
          st_rsi p (map Fin cl) ! i = Fin 0"
    if "0 < p" "p \<le> i" "\<forall>k\<in>{i + 1 - p..i}. cl ! k \<le> cl ! (k - 1)"
      "\<exists>k\<in>{i + 1 - p..i}. cl ! k < cl ! (k - 1)"
  proof -
    have g0: "\<forall>k\<in>{Suc i - p..i}. gain_at cl k = 0"
      using that(3) by (simp add: gain_at_eq_0)
    then have G: "(\<Sum>k = Suc i - p..i. gain_at cl k) = 0"
      by simp
    from that(4) obtain k where "k \<in> {Suc i - p..i}" "0 < loss_at cl k"
      by (auto simp add: loss_at_pos)
    then have "0 < (\<Sum>k = Suc i - p..i. loss_at cl k)"
      by (intro sum_pos_if_one [of "loss_at cl" k]) simp_all
    then have r: "st_rsi p (map Fin cl) ! i = Fin 0"
      using that(1,2) G by (simp add: st_rsi_Fin_nth [OF assms])
    from st_window_rsi [OF assms that(1,2)] g0 G
    have "(\<forall>k\<in>{Suc i - p..i}. st_gain (map Fin cl) ! k = Fin 0) \<and>
        st_avg_gain p (map Fin cl) ! i = Fin 0"
      by simp
    then show ?thesis
      using r by simp
  qed
  have hist: "(\<forall>k\<in>{1..i}. gd_gain (map Fin cl) ! k = Fin 0) \<and>
          gd_avg_gain 14 (map Fin cl) ! i = Fin 0 \<and>
          gd_rsi 14 (map Fin cl) ! i = Fin 0"
    if "1 \<le> i" "\<forall>k\<in>{1..i}. cl ! k \<le> cl ! (k - 1)" "\<exists>k\<in>{1..i}. cl ! k < cl ! (k - 1)"
  proof -
    have p: "1 \<le> (14::nat)" and p2: "2 \<le> (14::nat)"
      by simp_all
    have g0: "\<forall>k\<in>{1..i}. gain_at cl k = 0"
      using that(2) by (simp add: gain_at_eq_0)
    have l1: "\<exists>k\<in>{1..i}. 0 < loss_at cl k"
      using that(3) by (simp add: loss_at_pos)
    from gd_rsi_Fin_nth [OF p that(1) assms]
    obtain a l where al: "gd_avg_gain 14 (map Fin cl) ! i = Fin a"
        "(\<forall>k\<in>{1..i}. gain_at cl k = 0) \<longrightarrow> a = 0"
        "2 \<le> (14::nat) \<longrightarrow> (\<exists>k\<in>{1..i}. 0 < loss_at cl k) \<longrightarrow> 0 < l"
        "gd_rsi 14 (map Fin cl) ! i =
           (if l = 0 then (if a = 0 then NaN else Fin 100) else Fin (100 - 100 / (1 + a / l)))"
      by blast
    from al(2) g0 have az: "a = 0"
      by blast
    from al(3) p2 l1 have lp: "0 < l"
      by blast
    have r: "gd_avg_gain 14 (map Fin cl) ! i = Fin 0 \<and> gd_rsi 14 (map Fin cl) ! i = Fin 0"
      using al(1,4) az lp by simp
    from gd_history_columns [OF assms] g0
    have "\<forall>k\<in>{1..i}. gd_gain (map Fin cl) ! k = Fin 0"
      by simp
    then show ?thesis
      using r by simp
  qed
  have flat_win: "st_rsi p (map Fin cl) ! i = NaN"
    if "0 < p" "p \<le> i" "\<forall>k\<in>{i + 1 - p..i}. cl ! k = cl ! (k - 1)"
  proof -
    have "\<forall>k\<in>{Suc i - p..i}. gain_at cl k = 0" and "\<forall>k\<in>{Suc i - p..i}. loss_at cl k = 0"
      using that(3) by (simp_all add: gain_at_eq_0 loss_at_eq_0)
    then have "(\<Sum>k = Suc i - p..i. gain_at cl k) = 0" and "(\<Sum>k = Suc i - p..i. loss_at cl k) = 0"
      by simp_all
    then show ?thesis
      using that(1,2) by (simp add: st_rsi_Fin_nth [OF assms])
  qed
  have flat_hist: "gd_rsi 14 (map Fin cl) ! i = NaN"
    if "1 \<le> i" "\<forall>k\<in>{1..i}. cl ! k = cl ! (k - 1)"
  proof -
    have p: "1 \<le> (14::nat)"
      by simp
    have g0: "\<forall>k\<in>{1..i}. gain_at cl k = 0" and l0: "\<forall>k\<in>{1..i}. loss_at cl k = 0"
      using that(2) by (simp_all add: gain_at_eq_0 loss_at_eq_0)
    from gd_rsi_Fin_nth [OF p that(1) assms]
    obtain a l where al: "(\<forall>k\<in>{1..i}. gain_at cl k = 0) \<longrightarrow> a = 0"
        "(\<forall>k\<in>{1..i}. loss_at cl k = 0) \<longrightarrow> l = 0"
        "gd_rsi 14 (map Fin cl) ! i =
           (if l = 0 then (if a = 0 then NaN else Fin 100) else Fin (100 - 100 / (1 + a / l)))"
      by blast
    from al(1,2) g0 l0 have "a = 0" "l = 0"
      by blast+
    then show ?thesis
      using al(3) by simp
  qed
  show ?thesis
    using win hist flat_win flat_hist by blast
qed

text \<open>
  Falling closes under the simple rule (lookback 3) and under the exponential rule; and
  closes that are equal over the window, or from the first bar.
\<close>

theorem C8_rsi_floor_witness:
  "st_gain (map Fin [13, 12, 12, 10]) ! 3 = Fin 0 \<and>
   st_avg_gain 3 (map Fin [13, 12, 12, 10]) ! 3 = Fin 0 \<and>
   st_rsi 3 (map Fin [13, 12, 12, 10]) ! 3 = Fin 0 \<and>
   gd_gain (map Fin [12, 11, 11]) ! 2 = Fin 0 \<and>
   gd_avg_gain 14 (map Fin [12, 11, 11]) ! 2 = Fin 0 \<and>
   gd_rsi 14 (map Fin [12, 11, 11]) ! 2 = Fin 0 \<and>
   st_rsi 3 (map Fin [13, 12, 12, 12, 12]) ! 4 = NaN \<and>
   gd_rsi 14 (map Fin [12, 12, 12]) ! 2 = NaN"
proof -
  let ?cl = "[13, 12, 12, 10 :: real]"
  let ?cm = "[12, 11, 11 :: real]"
  let ?fl = "[13, 12, 12, 12, 12 :: real]"
  let ?fm = "[12, 12, 12 :: real]"
  have n: "3 < length ?cl" and m: "2 < length ?cm" and nf: "4 < length ?fl" and mf: "2 < length ?fm"
    by simp_all
  have w: "(0::nat) < 3 \<and> (3::nat) \<le> 1024 \<and> (3::nat) \<le> 3 \<and> list_all on_grid ?cl \<and>
      (\<forall>k\<in>{3 + 1 - 3..3}. ?cl ! k \<le> ?cl ! (k - 1)) \<and>
      (\<exists>k\<in>{3 + 1 - 3..3}. ?cl ! k < ?cl ! (k - 1))"
    by (simp add: eval_nat_numeral atLeastAtMostSuc_conv on_grid_def)
  from C8_rsi_floor [OF n, of 3] w
  have a0: "(\<forall>k\<in>{3 + 1 - 3..3}. st_gain (map Fin ?cl) ! k = Fin 0) \<and>
      st_avg_gain 3 (map Fin ?cl) ! 3 = Fin 0 \<and> st_rsi 3 (map Fin ?cl) ! 3 = Fin 0"
    by blast
  have "(3::nat) \<in> {3 + 1 - 3..3}"
    by simp
  with a0 have a: "st_gain (map Fin ?cl) ! 3 = Fin 0 \<and>
      st_avg_gain 3 (map Fin ?cl) ! 3 = Fin 0 \<and> st_rsi 3 (map Fin ?cl) ! 3 = Fin 0"
    by blast
  have h: "(1::nat) \<le> 2 \<and> (2::nat) \<le> 4096 \<and> list_all on_grid ?cm \<and>
      (\<forall>k\<in>{1..2}. ?cm ! k \<le> ?cm ! (k - 1)) \<and>
      (\<exists>k\<in>{1..2}. ?cm ! k < ?cm ! (k - 1))"
    by (simp add: eval_nat_numeral atLeastAtMostSuc_conv on_grid_def)
  from C8_rsi_floor [OF m] h
  have b0: "(\<forall>k\<in>{1..2}. gd_gain (map Fin ?cm) ! k = Fin 0) \<and>
      gd_avg_gain 14 (map Fin ?cm) ! 2 = Fin 0 \<and> gd_rsi 14 (map Fin ?cm) ! 2 = Fin 0"
    by blast
  have "(2::nat) \<in> {1..2}"
    by simp
  with b0 have b: "gd_gain (map Fin ?cm) ! 2 = Fin 0 \<and>
      gd_avg_gain 14 (map Fin ?cm) ! 2 = Fin 0 \<and> gd_rsi 14 (map Fin ?cm) ! 2 = Fin 0"
    by blast
  have wf: "(0::nat) < 3 \<and> (3::nat) \<le> 1024 \<and> (3::nat) \<le> 4 \<and> list_all on_grid ?fl \<and>
      (\<forall>k\<in>{4 + 1 - 3..4}. ?fl ! k = ?fl ! (k - 1))"
    by (simp add: eval_nat_numeral atLeastAtMostSuc_conv on_grid_def)
  from C8_rsi_floor [OF nf, of 3] wf
  have c: "st_rsi 3 (map Fin ?fl) ! 4 = NaN"
    by blast
  have hf: "(1::nat) \<le> 2 \<and> (2::nat) \<le> 4096 \<and> list_all on_grid ?fm \<and>
      (\<forall>k\<in>{1..2}. ?fm ! k = ?fm ! (k - 1))"
    by (simp add: eval_nat_numeral atLeastAtMostSuc_conv on_grid_def)
  from C8_rsi_floor [OF mf] hf
  have d: "gd_rsi 14 (map Fin ?fm) ! 2 = NaN"
    by blast
  show ?thesis
    using a b c d by blast
qed

text \<open>
  The claim as stated gives 0 on every non-increasing window.  On equal closes the RSI of
  either script is NaN.  And under the exponential rule a gain before the lookback
  window keeps a positive weight: after the rise from 1 to 20 the closes fall for
  fourteen bars, and the RSI at index 15 is not 0.
\<close>

theorem C8_flat_counterexample:
  "gd_rsi 14 (map Fin [3, 3, 3]) ! 2 = NaN \<and>
   st_rsi 14 (map Fin [3, 3, 3, 3, 3, 3, 3, 3, 3, 3, 3, 3, 3, 3, 3]) ! 14 = NaN \<and>
   gd_rsi 14 (map Fin [1, 20, 19, 18, 17, 16, 15, 14, 13, 12, 11, 10, 9, 8, 7, 6]) ! 15 \<noteq> Fin 0"
proof -
  let ?f3 = "[3, 3, 3 :: real]"
  have p: "1 \<le> (14::nat)" and i2: "1 \<le> (2::nat)" and n3: "2 < length ?f3"
    by simp_all
  have z: "(\<forall>k\<in>{1..2}. gain_at ?f3 k = 0) \<and> (\<forall>k\<in>{1..2}. loss_at ?f3 k = 0)"
    by (simp add: eval_nat_numeral atLeastAtMostSuc_conv gain_at_def loss_at_def delta_at_def)
  from gd_rsi_Fin_nth [OF p i2 n3]
  obtain g0 l0 where g0: "(\<forall>k\<in>{1..2}. gain_at ?f3 k = 0) \<longrightarrow> g0 = 0"
      and l0: "(\<forall>k\<in>{1..2}. loss_at ?f3 k = 0) \<longrightarrow> l0 = 0"
      and r0: "gd_rsi 14 (map Fin ?f3) ! 2 =
        (if l0 = 0 then (if g0 = 0 then NaN else Fin 100) else Fin (100 - 100 / (1 + g0 / l0)))"
    by blast
  from g0 l0 z have "g0 = 0" "l0 = 0"
    by blast+
  with r0 have a: "gd_rsi 14 (map Fin ?f3) ! 2 = NaN"
    by simp
  let ?flat = "[3, 3, 3, 3, 3, 3, 3, 3, 3, 3, 3, 3, 3, 3, 3 :: real]"
  have fg: "(\<Sum>k = Suc 14 - 14..14. gain_at ?flat k) = 0"
    by (simp add: eval_nat_numeral atLeastAtMostSuc_conv gain_at_def delta_at_def)
  have fl: "(\<Sum>k = Suc 14 - 14..14. loss_at ?flat k) = 0"
    by (simp add: eval_nat_numeral atLeastAtMostSuc_conv loss_at_def delta_at_def)
  have b: "st_rsi 14 (map Fin ?flat) ! 14 = NaN"
    using st_rsi_Fin_nth [of 14 ?flat 14] fg fl by simp
  let ?cl = "[1, 20, 19, 18, 17, 16, 15, 14, 13, 12, 11, 10, 9, 8, 7, 6 :: real]"
  have i: "1 \<le> (15::nat)" and n: "15 < length ?cl" and p2: "2 \<le> (14::nat)"
    by simp_all
  have exg: "\<exists>k\<in>{1..15}. 0 < gain_at ?cl k"
    by (intro bexI [of _ 1]) (simp_all add: gain_at_def delta_at_def)
  have exl: "\<exists>k\<in>{1..15}. 0 < loss_at ?cl k"
    by (intro bexI [of _ 2]) (simp_all add: loss_at_def delta_at_def)
  from gd_rsi_Fin_nth [OF p i n]
  obtain g l where g: "2 \<le> (14::nat) \<longrightarrow> (\<exists>k\<in>{1..15}. 0 < gain_at ?cl k) \<longrightarrow> 0 < g"
      and l: "2 \<le> (14::nat) \<longrightarrow> (\<exists>k\<in>{1..15}. 0 < loss_at ?cl k) \<longrightarrow> 0 < l"
      and r: "gd_rsi 14 (map Fin ?cl) ! 15 =
        (if l = 0 then (if g = 0 then NaN else Fin 100) else Fin (100 - 100 / (1 + g / l)))"
    by blast
  from g l p2 exg exl have "0 < g" "0 < l"
    by blast+
  note gl = this r
  have "1 < 1 + g / l"
    using gl(1,2) by simp
  then have "100 / (1 + g / l) < 100"
    by (simp add: divide_less_eq)
  then have c: "gd_rsi 14 (map Fin ?cl) ! 15 \<noteq> Fin 0"
    using gl by simp
  show ?thesis
    using a b c by simp
qed

section \<open>The range of the RSI, on finite closes\<close>

lemma st_rsi_defined:
  assumes "i < length cl" and "0 < p" and "p \<le> i"
    and "\<exists>k\<in>{i + 1 - p..i}. cl ! k \<noteq> cl ! (k - 1)"
  shows "st_rsi p (map Fin cl) ! i \<noteq> NaN"
proof -
  from assms(4) obtain k where k: "k \<in> {Suc i - p..i}" "cl ! k \<noteq> cl ! (k - 1)"
    by auto
  then have "0 < gain_at cl k \<or> 0 < loss_at cl k"
    by (auto simp add: gain_at_pos loss_at_pos)
  then have "0 < (\<Sum>k = Suc i - p..i. gain_at cl k) \<or> 0 < (\<Sum>k = Suc i - p..i. loss_at cl k)"
    using k(1) sum_pos_if_one [of "gain_at cl" k "Suc i - p" i]
      sum_pos_if_one [of "loss_at cl" k "Suc i - p" i]
    by auto
  then show ?thesis
    using assms(2,3) by (auto simp add: st_rsi_Fin_nth [OF assms(1)])
qed

lemma gd_rsi_defined:
  assumes "i < length cl" and "2 \<le> p" and "1 \<le> i"
    and "\<exists>k\<in>{1..i}. cl ! k \<noteq> cl ! (k - 1)"
  shows "gd_rsi p (map Fin cl) ! i \<noteq> NaN"
proof -
  have p: "1 \<le> p"
    using assms(2) by simp
  from assms(4) obtain k where k: "k \<in> {1..i}" "cl ! k \<noteq> cl ! (k - 1)"
    by auto
  then have "0 < gain_at cl k \<or> 0 < loss_at cl k"
    by (auto simp add: gain_at_pos loss_at_pos)
  then have ex: "(\<exists>k\<in>{1..i}. 0 < gain_at cl k) \<or> (\<exists>k\<in>{1..i}. 0 < loss_at cl k)"
    using k(1) by blast
  from gd_rsi_Fin_nth [OF p assms(3) assms(1)]
  obtain a l where al: "0 \<le> a" "0 \<le> l"
      "2 \<le> p \<longrightarrow> (\<exists>k\<in>{1..i}. 0 < gain_at cl k) \<longrightarrow> 0 < a"
      "2 \<le> p \<longrightarrow> (\<exists>k\<in>{1..i}. 0 < loss_at cl k) \<longrightarrow> 0 < l"
      "gd_rsi p (map Fin cl) ! i =
         (if l = 0 then (if a = 0 then NaN else Fin 100) else Fin (100 - 100 / (1 + a / l)))"
    by blast
  from al(3,4) assms(2) ex have "0 < a \<or> 0 < l"
    by blast
  then show ?thesis
    using al(5) by auto
qed

text \<open>
  Claim C5.  On a frame of finite closes with at least one bar, each script returns a
  frame with one RSI value per bar, and every RSI value is either NaN (undefined) or a
  finite number between 0 and 100: for the exponential smoothing of gold\_dashboard.py
  and for the simple smoothing of gold\_dashboard\_streamlit.py, with the scripts' lookback
  14 and with every lookback \<open>p \<ge> 1\<close> in its place.  The bound is not empty: on closes on
  which float64 is exact, the RSI of gold\_dashboard.py is a number in that range at every
  index from 1 to 4096 that has a price change at or before it, and the RSI of
  gold\_dashboard\_streamlit.py at every index from 14 on whose lookback window has a price
  change.
\<close>

theorem C5_rsi_bounds:
  assumes "Close df = map Fin cl" and "cl \<noteq> []"
  shows "(\<exists>fr. get_data df = Inr fr \<and> length (RSI fr) = length cl \<and>
            (\<forall>i<length cl. RSI fr ! i = NaN \<or> (\<exists>r. RSI fr ! i = Fin r \<and> 0 \<le> r \<and> r \<le> 100)) \<and>
            (\<forall>i<length cl. 1 \<le> i \<and> i \<le> 4096 \<and> list_all on_grid cl \<and>
                 (\<exists>k\<in>{1..i}. cl ! k \<noteq> cl ! (k - 1)) \<longrightarrow>
               (\<exists>r. RSI fr ! i = Fin r \<and> 0 \<le> r \<and> r \<le> 100))) \<and>
         (\<exists>fr. streamlit_indicators df = Inr fr \<and> length (RSI fr) = length cl \<and>
            (\<forall>i<length cl. RSI fr ! i = NaN \<or> (\<exists>r. RSI fr ! i = Fin r \<and> 0 \<le> r \<and> r \<le> 100)) \<and>
            (\<forall>i<length cl. 14 \<le> i \<and> list_all on_grid cl \<and>
                 (\<exists>k\<in>{i + 1 - 14..i}. cl ! k \<noteq> cl ! (k - 1)) \<longrightarrow>
               (\<exists>r. RSI fr ! i = Fin r \<and> 0 \<le> r \<and> r \<le> 100))) \<and>
         (1 \<le> p \<longrightarrow>
            (\<forall>i<length cl. gd_rsi p (map Fin cl) ! i = NaN \<or>
               (\<exists>r. gd_rsi p (map Fin cl) ! i = Fin r \<and> 0 \<le> r \<and> r \<le> 100)) \<and>
            (\<forall>i<length cl. st_rsi p (map Fin cl) ! i = NaN \<or>
               (\<exists>r. st_rsi p (map Fin cl) ! i = Fin r \<and> 0 \<le> r \<and> r \<le> 100)))"
proof -
  have gd: "gd_rsi q (map Fin cl) ! i = NaN \<or>
      (\<exists>r. gd_rsi q (map Fin cl) ! i = Fin r \<and> 0 \<le> r \<and> r \<le> 100)"
    if "1 \<le> q" and "i < length cl" for q i
  proof -
    have "rsi_ok (gd_rsi q (map Fin cl) ! i)"
      using that by (intro rsi_ok_gd_rsi [of q _ "map Fin cl"]) simp_all
    then show ?thesis
      by (simp only: rsi_ok_iff)
  qed
  have st: "st_rsi q (map Fin cl) ! i = NaN \<or>
      (\<exists>r. st_rsi q (map Fin cl) ! i = Fin r \<and> 0 \<le> r \<and> r \<le> 100)"
    if "i < length cl" for q i
  proof -
    have "rsi_ok (st_rsi q (map Fin cl) ! i)"
      using that by (intro rsi_ok_st_rsi [of _ q "map Fin cl"]) simp_all
    then show ?thesis
      by (simp only: rsi_ok_iff)
  qed
  have gdd: "\<exists>r. gd_rsi 14 (map Fin cl) ! i = Fin r \<and> 0 \<le> r \<and> r \<le> 100"
    if "i < length cl" "1 \<le> i" "\<exists>k\<in>{1..i}. cl ! k \<noteq> cl ! (k - 1)" for i
    using gd [of 14 i] gd_rsi_defined [of i cl 14] that by simp
  have std: "\<exists>r. st_rsi 14 (map Fin cl) ! i = Fin r \<and> 0 \<le> r \<and> r \<le> 100"
    if "i < length cl" "14 \<le> i" "\<exists>k\<in>{i + 1 - 14..i}. cl ! k \<noteq> cl ! (k - 1)" for i
    using st [of i 14] st_rsi_defined [of i cl 14] that by simp
  have ne: "\<not> empty df"
    using assms by (simp add: empty_def)
  let ?g = "\<lparr> Open = Open df, High = High df, Low = Low df, Close = Close df,
                 Volume = Volume df,
                 SMA_20 = rolling_mean 20 (Close df),
                 SMA_50 = rolling_mean 50 (Close df),
                 RSI = gd_rsi 14 (map Fin cl) \<rparr>"
  have g1: "get_data df = Inr ?g"
    using ne assms(1) by (simp add: get_data_def)
  have g2: "RSI ?g = gd_rsi 14 (map Fin cl)"
    by simp
  have a: "\<exists>fr. get_data df = Inr fr \<and> length (RSI fr) = length cl \<and>
            (\<forall>i<length cl. RSI fr ! i = NaN \<or> (\<exists>r. RSI fr ! i = Fin r \<and> 0 \<le> r \<and> r \<le> 100)) \<and>
            (\<forall>i<length cl. 1 \<le> i \<and> i \<le> 4096 \<and> list_all on_grid cl \<and>
                 (\<exists>k\<in>{1..i}. cl ! k \<noteq> cl ! (k - 1)) \<longrightarrow>
               (\<exists>r. RSI fr ! i = Fin r \<and> 0 \<le> r \<and> r \<le> 100))"
    apply (rule exI [of _ ?g])
    apply (simp only: g1 g2)
    using gd [of 14] gdd apply simp
    done
  let ?s = "\<lparr> Open = Open df, High = High df, Low = Low df, Close = Close df,
                 Volume = Volume df,
                 SMA_20 = rolling_mean 20 (Close df),
                 SMA_50 = rolling_mean 50 (Close df),
                 RSI = st_rsi 14 (map Fin cl) \<rparr>"
  have s1: "streamlit_indicators df = Inr ?s"
    using ne assms(1) by (simp add: streamlit_indicators_def calculate_indicators_def)
  have s2: "RSI ?s = st_rsi 14 (map Fin cl)"
    by simp
  have b: "\<exists>fr. streamlit_indicators df = Inr fr \<and> length (RSI fr) = length cl \<and>
            (\<forall>i<length cl. RSI fr ! i = NaN \<or> (\<exists>r. RSI fr ! i = Fin r \<and> 0 \<le> r \<and> r \<le> 100)) \<and>
            (\<forall>i<length cl. 14 \<le> i \<and> list_all on_grid cl \<and>
                 (\<exists>k\<in>{i + 1 - 14..i}. cl ! k \<noteq> cl ! (k - 1)) \<longrightarrow>
               (\<exists>r. RSI fr ! i = Fin r \<and> 0 \<le> r \<and> r \<le> 100))"
    apply (rule exI [of _ ?s])
    apply (simp only: s1 s2)
    using st [of _ 14] std apply simp
    done
  have c: "1 \<le> p \<longrightarrow>
            (\<forall>i<length cl. gd_rsi p (map Fin cl) ! i = NaN \<or>
               (\<exists>r. gd_rsi p (map Fin cl) ! i = Fin r \<and> 0 \<le> r \<and> r \<le> 100)) \<and>
            (\<forall>i<length cl. st_rsi p (map Fin cl) ! i = NaN \<or>
               (\<exists>r. st_rsi p (map Fin cl) ! i = Fin r \<and> 0 \<le> r \<and> r \<le> 100))"
    using gd [of p] st [of _ p] by blast
  show ?thesis
    using a b c by blast
qed

text \<open>
  Three bars through gold\_dashboard.py, and sixteen bars that alternate between 1 and 2
  through gold\_dashboard\_streamlit.py: the RSI values \<open>325 / 7\<close> and 50.
\<close>

theorem C5_rsi_bounds_witness:
  "(\<exists>fr. get_data \<lparr> Open = map Fin [1, 2, 1], High = map Fin [1, 2, 1],
        Low = map Fin [1, 2, 1], Close = map Fin [1, 2, 1],
        Volume = map Fin [1, 2, 1] \<rparr> = Inr fr \<and>
      (\<exists>r. RSI fr ! 2 = Fin r \<and> 0 \<le> r \<and> r \<le> 100) \<and>
      RSI fr ! 0 = NaN \<and> RSI fr ! 1 = Fin 100 \<and> RSI fr ! 2 = Fin (325 / 7)) \<and>
   (\<exists>fr. streamlit_indicators
        \<lparr> Open = map Fin [1, 2, 1, 2, 1, 2, 1, 2, 1, 2, 1, 2, 1, 2, 1, 2],
          High = map Fin [1, 2, 1, 2, 1, 2, 1, 2, 1, 2, 1, 2, 1, 2, 1, 2],
          Low = map Fin [1, 2, 1, 2, 1, 2, 1, 2, 1, 2, 1, 2, 1, 2, 1, 2],
          Close = map Fin [1, 2, 1, 2, 1, 2, 1, 2, 1, 2, 1, 2, 1, 2, 1, 2],
          Volume = map Fin [1, 2, 1, 2, 1, 2, 1, 2, 1, 2, 1, 2, 1, 2, 1, 2] \<rparr> = Inr fr \<and>
      (\<exists>r. RSI fr ! 15 = Fin r \<and> 0 \<le> r \<and> r \<le> 100) \<and>
      RSI fr ! 15 = Fin 50)"
proof -
  let ?c3 = "[1, 2, 1 :: real]"
  let ?d3 = "\<lparr> Open = map Fin ?c3, High = map Fin ?c3, Low = map Fin ?c3, Close = map Fin ?c3,
      Volume = map Fin ?c3 \<rparr>"
  let ?c16 = "[1, 2, 1, 2, 1, 2, 1, 2, 1, 2, 1, 2, 1, 2, 1, 2 :: real]"
  let ?d16 = "\<lparr> Open = map Fin ?c16, High = map Fin ?c16, Low = map Fin ?c16,
      Close = map Fin ?c16, Volume = map Fin ?c16 \<rparr>"
  have c3: "Close ?d3 = map Fin ?c3" and n3: "?c3 \<noteq> []"
    by simp_all
  have c16: "Close ?d16 = map Fin ?c16" and n16: "?c16 \<noteq> []"
    by simp_all
  from C5_rsi_bounds [OF c3 n3, of 14]
  obtain fr where fr: "get_data ?d3 = Inr fr"
      and frd: "\<forall>i<length ?c3. 1 \<le> i \<and> i \<le> 4096 \<and> list_all on_grid ?c3 \<and>
                 (\<exists>k\<in>{1..i}. ?c3 ! k \<noteq> ?c3 ! (k - 1)) \<longrightarrow>
               (\<exists>r. RSI fr ! i = Fin r \<and> 0 \<le> r \<and> r \<le> 100)"
    by blast
  have k3: "\<exists>k\<in>{1..2}. ?c3 ! k \<noteq> ?c3 ! (k - 1)"
    by (intro bexI [of _ 1]) simp_all
  have h3: "2 < length ?c3 \<and> 1 \<le> (2::nat) \<and> (2::nat) \<le> 4096 \<and> list_all on_grid ?c3"
    by (simp add: on_grid_def)
  from frd h3 k3 have a1: "\<exists>r. RSI fr ! 2 = Fin r \<and> 0 \<le> r \<and> r \<le> 100"
    by blast
  have "RSI fr = gd_rsi 14 (map Fin ?c3)"
    using fr by (auto simp add: get_data_def empty_def)
  moreover have "gd_rsi 14 (map Fin ?c3) = [NaN, Fin 100, Fin (325 / 7)]"
    by (simp add: gd_rsi_def rs_of_def rsi_of_def gd_avg_gain_def gd_avg_loss_def gd_gain_def
        gd_loss_def diff_def shift1_def clip_lower_def clip_upper_def neg_def fsub_def isna_def
        flt_def ewm_mean_def ewm_def prep_values_def Let_def)
  ultimately have a2: "RSI fr ! 0 = NaN \<and> RSI fr ! 1 = Fin 100 \<and> RSI fr ! 2 = Fin (325 / 7)"
    by simp
  from C5_rsi_bounds [OF c16 n16, of 14]
  obtain fs where fs: "streamlit_indicators ?d16 = Inr fs"
      and fsd: "\<forall>i<length ?c16. 14 \<le> i \<and> list_all on_grid ?c16 \<and>
                 (\<exists>k\<in>{i + 1 - 14..i}. ?c16 ! k \<noteq> ?c16 ! (k - 1)) \<longrightarrow>
               (\<exists>r. RSI fs ! i = Fin r \<and> 0 \<le> r \<and> r \<le> 100)"
    by blast
  have k16: "\<exists>k\<in>{15 + 1 - 14..15}. ?c16 ! k \<noteq> ?c16 ! (k - 1)"
    by (intro bexI [of _ 15]) simp_all
  have h16: "15 < length ?c16 \<and> 14 \<le> (15::nat) \<and> list_all on_grid ?c16"
    by (simp add: on_grid_def)
  from fsd h16 k16 have b1: "\<exists>r. RSI fs ! 15 = Fin r \<and> 0 \<le> r \<and> r \<le> 100"
    by blast
  have g: "(\<Sum>k = Suc 15 - 14..15. gain_at ?c16 k) = 7"
    by (simp add: eval_nat_numeral atLeastAtMostSuc_conv gain_at_def delta_at_def)
  have l: "(\<Sum>k = Suc 15 - 14..15. loss_at ?c16 k) = 7"
    by (simp add: eval_nat_numeral atLeastAtMostSuc_conv loss_at_def delta_at_def)
  have v: "st_rsi 14 (map Fin ?c16) ! 15 = Fin 50"
    using st_rsi_Fin_nth [of 15 ?c16 14] g l by simp
  have "RSI fs = st_rsi 14 (map Fin ?c16)"
    using fs by (auto simp add: streamlit_indicators_def calculate_indicators_def empty_def)
  with v have b2: "RSI fs ! 15 = Fin 50"
    by simp
  have a: "\<exists>fr. get_data ?d3 = Inr fr \<and>
      (\<exists>r. RSI fr ! 2 = Fin r \<and> 0 \<le> r \<and> r \<le> 100) \<and>
      RSI fr ! 0 = NaN \<and> RSI fr ! 1 = Fin 100 \<and> RSI fr ! 2 = Fin (325 / 7)"
    using fr a1 a2 by blast
  have b: "\<exists>fr. streamlit_indicators ?d16 = Inr fr \<and>
      (\<exists>r. RSI fr ! 15 = Fin r \<and> 0 \<le> r \<and> r \<le> 100) \<and> RSI fr ! 15 = Fin 50"
    using fs b1 b2 by blast
  show ?thesis
    using a b by (rule conjI)
qed

section \<open>One smoothing rule per script\<close>

text \<open>
  Claim C1, as amended.  Neither script has a smoothing-rule input: gold\_dashboard.py
  always smooths with the exponentially weighted mean (span 14) and
  gold\_dashboard\_streamlit.py always with the simple rolling mean (window 14).  Within
  each script one RSI computation applies that one rule to both the gain series and the
  loss series, never mixing the two.
\<close>

theorem C1_one_rule_per_script:
  "(\<forall>fr. get_data df = Inr fr \<longrightarrow>
      RSI fr = rsi_of (rs_of (smooth EXPONENTIAL 14 (gd_gain (Close df)))
                             (smooth EXPONENTIAL 14 (gd_loss (Close df))))) \<and>
   (\<forall>fr. streamlit_indicators df = Inr fr \<longrightarrow>
      RSI fr = rsi_of (rs_of (smooth SIMPLE 14 (st_gain (Close df)))
                             (smooth SIMPLE 14 (st_loss (Close df))))) \<and>
   gd_avg_gain p c = smooth EXPONENTIAL p (gd_gain c) \<and>
   gd_avg_loss p c = smooth EXPONENTIAL p (gd_loss c) \<and>
   st_avg_gain p c = smooth SIMPLE p (st_gain c) \<and>
   st_avg_loss p c = smooth SIMPLE p (st_loss c)"
  by (auto simp add: get_data_def streamlit_indicators_def calculate_indicators_def smooth_def
      gd_rsi_def gd_avg_gain_def gd_avg_loss_def st_rsi_def st_avg_gain_def st_avg_loss_def
      split: if_splits)

theorem C1_one_rule_per_script_witness:
  "(\<exists>fr. get_data \<lparr> Open = [Fin 1, Fin 2], High = [Fin 1, Fin 2], Low = [Fin 1, Fin 2],
        Close = [Fin 1, Fin 2], Volume = [Fin 1, Fin 2] \<rparr> = Inr fr \<and>
      RSI fr = rsi_of (rs_of (smooth EXPONENTIAL 14 (gd_gain [Fin 1, Fin 2]))
                             (smooth EXPONENTIAL 14 (gd_loss [Fin 1, Fin 2])))) \<and>
   (\<exists>fr. streamlit_indicators \<lparr> Open = [Fin 1, Fin 2], High = [Fin 1, Fin 2],
        Low = [Fin 1, Fin 2], Close = [Fin 1, Fin 2], Volume = [Fin 1, Fin 2] \<rparr> = Inr fr \<and>
      RSI fr = rsi_of (rs_of (smooth SIMPLE 14 (st_gain [Fin 1, Fin 2]))
                             (smooth SIMPLE 14 (st_loss [Fin 1, Fin 2]))))"
proof -
  let ?df = "\<lparr> Open = [Fin 1, Fin 2], High = [Fin 1, Fin 2], Low = [Fin 1, Fin 2],
        Close = [Fin 1, Fin 2], Volume = [Fin 1, Fin 2] \<rparr>"
  obtain fr where fr: "get_data ?df = Inr fr"
    by (simp add: get_data_def empty_def)
  obtain fs where fs: "streamlit_indicators ?df = Inr fs"
    by (simp add: streamlit_indicators_def empty_def)
  from C1_one_rule_per_script [of ?df] fr
  have a: "RSI fr = rsi_of (rs_of (smooth EXPONENTIAL 14 (gd_gain (Close ?df)))
                             (smooth EXPONENTIAL 14 (gd_loss (Close ?df))))"
    by blast
  from C1_one_rule_per_script [of ?df] fs
  have b: "RSI fs = rsi_of (rs_of (smooth SIMPLE 14 (st_gain (Close ?df)))
                             (smooth SIMPLE 14 (st_loss (Close ?df))))"
    by blast
  from a have a': "RSI fr = rsi_of (rs_of (smooth EXPONENTIAL 14 (gd_gain [Fin 1, Fin 2]))
                             (smooth EXPONENTIAL 14 (gd_loss [Fin 1, Fin 2])))"
    by simp
  from b have b': "RSI fs = rsi_of (rs_of (smooth SIMPLE 14 (st_gain [Fin 1, Fin 2]))
                             (smooth SIMPLE 14 (st_loss [Fin 1, Fin 2])))"
    by simp
  show ?thesis
    using fr fs a' b' by blast
qed

lemma rolling_mean_14_pair: "rolling_mean 14 [x, y] = [NaN, NaN]"
proof -
  have "window_mean 14 w = NaN" if "length w \<le> 2" for w
  proof -
    have "length (filter (\<lambda>x. \<not> isna x) w) \<le> 2"
      using that length_filter_le [of "\<lambda>x. \<not> isna x" w] by linarith
    then show ?thesis
      by (simp add: window_mean_def Let_def)
  qed
  then show ?thesis
    by (simp add: rolling_mean_def roll_mean_def window_def)
qed

text \<open>
  The claim as stated has a selector in the input whose value decides the rule.  On the
  closes 1, 2 the RSI column of gold\_dashboard.py is NaN, 100, while the SIMPLE rule on
  the same gains and losses gives NaN, NaN; the RSI column of
  gold\_dashboard\_streamlit.py is NaN, NaN, while the EXPONENTIAL rule on the same gains
  and losses gives NaN, 100.  So no input of either script selects the other rule.
\<close>

theorem C1_no_selector_counterexample:
  "get_data \<lparr> Open = [Fin 1, Fin 2], High = [Fin 1, Fin 2], Low = [Fin 1, Fin 2],
        Close = [Fin 1, Fin 2], Volume = [Fin 1, Fin 2] \<rparr> =
     Inr \<lparr> Open = [Fin 1, Fin 2], High = [Fin 1, Fin 2], Low = [Fin 1, Fin 2],
        Close = [Fin 1, Fin 2], Volume = [Fin 1, Fin 2],
        SMA_20 = rolling_mean 20 [Fin 1, Fin 2], SMA_50 = rolling_mean 50 [Fin 1, Fin 2],
        RSI = [NaN, Fin 100] \<rparr> \<and>
   rsi_of (rs_of (smooth SIMPLE 14 (gd_gain [Fin 1, Fin 2]))
                 (smooth SIMPLE 14 (gd_loss [Fin 1, Fin 2]))) = [NaN, NaN] \<and>
   streamlit_indicators \<lparr> Open = [Fin 1, Fin 2], High = [Fin 1, Fin 2], Low = [Fin 1, Fin 2],
        Close = [Fin 1, Fin 2], Volume = [Fin 1, Fin 2] \<rparr> =
     Inr \<lparr> Open = [Fin 1, Fin 2], High = [Fin 1, Fin 2], Low = [Fin 1, Fin 2],
        Close = [Fin 1, Fin 2], Volume = [Fin 1, Fin 2],
        SMA_20 = rolling_mean 20 [Fin 1, Fin 2], SMA_50 = rolling_mean 50 [Fin 1, Fin 2],
        RSI = [NaN, NaN] \<rparr> \<and>
   rsi_of (rs_of (smooth EXPONENTIAL 14 (st_gain [Fin 1, Fin 2]))
                 (smooth EXPONENTIAL 14 (st_loss [Fin 1, Fin 2]))) = [NaN, Fin 100]"
proof -
  have gd: "gd_rsi 14 [Fin 1, Fin 2] = [NaN, Fin 100]"
    by (simp add: gd_rsi_def rs_of_def rsi_of_def gd_avg_gain_def gd_avg_loss_def gd_gain_def
        gd_loss_def diff_def shift1_def clip_lower_def clip_upper_def neg_def fsub_def isna_def
        flt_def ewm_mean_def ewm_def Let_def)
  have st: "st_rsi 14 [Fin 1, Fin 2] = [NaN, NaN]"
    by (simp add: st_rsi_def rs_of_def rsi_of_def st_avg_gain_def st_avg_loss_def st_gain_def
        st_loss_def diff_def shift1_def where_gt0_def where_lt0_def neg_def fsub_def flt_def
        rolling_mean_14_pair Let_def)
  have gs: "rsi_of (rs_of (smooth SIMPLE 14 (gd_gain [Fin 1, Fin 2]))
                 (smooth SIMPLE 14 (gd_loss [Fin 1, Fin 2]))) = [NaN, NaN]"
    by (simp add: smooth_def rs_of_def rsi_of_def gd_gain_def gd_loss_def diff_def shift1_def
        clip_lower_def clip_upper_def neg_def fsub_def isna_def flt_def rolling_mean_14_pair)
  have se: "rsi_of (rs_of (smooth EXPONENTIAL 14 (st_gain [Fin 1, Fin 2]))
                 (smooth EXPONENTIAL 14 (st_loss [Fin 1, Fin 2]))) = [NaN, Fin 100]"
    by (simp add: smooth_def rs_of_def rsi_of_def st_gain_def st_loss_def diff_def shift1_def
        where_gt0_def where_lt0_def neg_def fsub_def isna_def flt_def ewm_mean_def ewm_def Let_def)
  show ?thesis
    using gd st gs se
    by (simp add: get_data_def streamlit_indicators_def calculate_indicators_def empty_def)
qed

end
